theory Spec2Isabelle
  imports Main
begin

section \<open>Python values\<close>

text \<open>
  An event is a Python dict decoded from JSON (\<^verbatim>\<open>Dict[str, Any]\<close>), so a field holds any JSON
  value. A float is represented by its \<^verbatim>\<open>repr\<close>, which determines it; a nested dict by its
  items in insertion order. A character of a string is one \<open>char\<close> (code points below 256).
\<close>

datatype pyval =
    PNone
  | PBool bool
  | PInt int
  | PFloat string
  | PStr string
  | PList "pyval list"
  | PDict "(string \<times> pyval) list"

text \<open>The exceptions the modelled code can raise; all derive from \<^verbatim>\<open>Exception\<close>.\<close>

datatype pyexn = TypeError | ValueError | OverflowError | KeyError

type_synonym event = "string \<rightharpoonup> pyval"

text \<open>Truth value testing (\<^verbatim>\<open>if v\<close>, \<^verbatim>\<open>not v\<close>).\<close>

fun truthy :: "pyval \<Rightarrow> bool" where
  "truthy PNone = False"
| "truthy (PBool b) = b"
| "truthy (PInt i) = (i \<noteq> 0)"
| "truthy (PFloat r) = (r \<noteq> ''0.0'' \<and> r \<noteq> ''-0.0'')"
| "truthy (PStr s) = (s \<noteq> [])"
| "truthy (PList xs) = (xs \<noteq> [])"
| "truthy (PDict kvs) = (kvs \<noteq> [])"

text \<open>\<^verbatim>\<open>event[k]\<close>, \<^verbatim>\<open>event.get(k)\<close> and \<^verbatim>\<open>event.get(k, d)\<close>.\<close>

definition dict_item :: "event \<Rightarrow> string \<Rightarrow> pyexn + pyval" where
  "dict_item ev k = (case ev k of None \<Rightarrow> Inl KeyError | Some v \<Rightarrow> Inr v)"

definition dict_get :: "event \<Rightarrow> string \<Rightarrow> pyval" where
  "dict_get ev k = (case ev k of None \<Rightarrow> PNone | Some v \<Rightarrow> v)"

definition dict_get_default :: "event \<Rightarrow> string \<Rightarrow> pyval \<Rightarrow> pyval" where
  "dict_get_default ev k d = (case ev k of None \<Rightarrow> d | Some v \<Rightarrow> v)"

subsection \<open>Rendering (\<^verbatim>\<open>str\<close>, \<^verbatim>\<open>repr\<close>, f-string fields)\<close>

definition digit_char :: "nat \<Rightarrow> char" where
  "digit_char d = ''0123456789abcdef'' ! d"

function dec :: "nat \<Rightarrow> string" where
  "dec n = (if n < 10 then [digit_char n] else dec (n div 10) @ [digit_char (n mod 10)])"
  by pat_completeness auto
termination
  by (relation "measure id") auto

declare dec.simps [simp del]

definition str_int :: "int \<Rightarrow> string" where
  "str_int i = (if i < 0 then CHR ''-'' # dec (nat (- i)) else dec (nat i))"

text \<open>\<^verbatim>\<open>'%0wd' % n\<close> for a natural number \<open>n\<close>.\<close>

definition zpad :: "nat \<Rightarrow> nat \<Rightarrow> string" where
  "zpad w n = replicate (w - length (dec n)) CHR ''0'' @ dec n"

definition repr_char :: "char \<Rightarrow> char \<Rightarrow> string" where
  "repr_char q c =
     (let n = (of_char c :: nat) in
      if c = q \<or> c = CHR 0x5C then [CHR 0x5C, c]
      else if c = CHR 0x09 then [CHR 0x5C, CHR ''t'']
      else if c = CHR 0x0A then [CHR 0x5C, CHR ''n'']
      else if c = CHR 0x0D then [CHR 0x5C, CHR ''r'']
      else if n < 32 \<or> n = 127 \<or> (128 \<le> n \<and> n \<le> 160) \<or> n = 173
           then [CHR 0x5C, CHR ''x'', digit_char (n div 16), digit_char (n mod 16)]
      else [c])"

definition repr_str :: "string \<Rightarrow> string" where
  "repr_str s =
     (let q = (if CHR 0x27 \<in> set s \<and> CHR 0x22 \<notin> set s then CHR 0x22 else CHR 0x27)
      in q # concat (map (repr_char q) s) @ [q])"

fun join :: "string \<Rightarrow> string list \<Rightarrow> string" where
  "join sep [] = []"
| "join sep [x] = x"
| "join sep (x # y # ys) = x @ sep @ join sep (y # ys)"

fun py_repr :: "pyval \<Rightarrow> string" where
  "py_repr PNone = ''None''"
| "py_repr (PBool b) = (if b then ''True'' else ''False'')"
| "py_repr (PInt i) = str_int i"
| "py_repr (PFloat r) = r"
| "py_repr (PStr s) = repr_str s"
| "py_repr (PList xs) = ''['' @ join '', '' (map py_repr xs) @ '']''"
| "py_repr (PDict kvs) =
     ''{'' @ join '', '' (map (\<lambda>kv. repr_str (fst kv) @ '': '' @ py_repr (snd kv)) kvs) @ ''}''"

text \<open>What an f-string puts for \<^verbatim>\<open>{v}\<close>: \<^verbatim>\<open>format(v, '')\<close>, that is \<^verbatim>\<open>str(v)\<close>.\<close>

definition py_str :: "pyval \<Rightarrow> string" where
  "py_str v = (case v of PStr s \<Rightarrow> s | _ \<Rightarrow> py_repr v)"

text \<open>
  \<^verbatim>\<open>v += s\<close> for a str \<open>s\<close>: concatenation on a str, extension by the characters of \<open>s\<close>
  on a list, \<^verbatim>\<open>TypeError\<close> on every other JSON value.
\<close>

definition iadd_str :: "pyval \<Rightarrow> string \<Rightarrow> pyexn + pyval" where
  "iadd_str v s =
     (case v of
        PStr d \<Rightarrow> Inr (PStr (d @ s))
      | PList xs \<Rightarrow> Inr (PList (xs @ map (\<lambda>c. PStr [c]) s))
      | _ \<Rightarrow> Inl TypeError)"

section \<open>The standard library's datetime\<close>

text \<open>
  A naive or fixed-offset \<^verbatim>\<open>datetime\<close>: its fields, and the UTC offset of its \<^verbatim>\<open>timezone\<close> in
  microseconds when it has one. A \<^verbatim>\<open>timedelta\<close> is its total number of microseconds.
\<close>

record datetime =
  dt_year :: nat
  dt_month :: nat
  dt_day :: nat
  dt_hour :: nat
  dt_minute :: nat
  dt_second :: nat
  dt_microsecond :: nat
  dt_tzinfo :: "int option"

type_synonym timedelta = int

definition timedelta_hours :: "int \<Rightarrow> timedelta" where
  "timedelta_hours h = h * 3600000000"

definition MAXYEAR :: nat where
  "MAXYEAR = 9999"

definition MAXORDINAL :: int where
  "MAXORDINAL = 3652059"

text \<open>Index 0 of the two month tables is a placeholder that is never read.\<close>

definition DAYS_IN_MONTH :: "nat list" where
  "DAYS_IN_MONTH = [0, 31, 28, 31, 30, 31, 30, 31, 31, 30, 31, 30, 31]"

definition DAYS_BEFORE_MONTH :: "nat list" where
  "DAYS_BEFORE_MONTH = [0, 0, 31, 59, 90, 120, 151, 181, 212, 243, 273, 304, 334]"

definition is_leap :: "nat \<Rightarrow> bool" where
  "is_leap year = (year mod 4 = 0 \<and> (year mod 400 = 0 \<or> year mod 100 \<noteq> 0))"

definition days_before_year :: "nat \<Rightarrow> nat" where
  "days_before_year year = (let y = year - 1 in y * 365 + y div 4 - y div 100 + y div 400)"

definition days_in_month :: "nat \<Rightarrow> nat \<Rightarrow> nat" where
  "days_in_month year month = (if month = 2 \<and> is_leap year then 29 else DAYS_IN_MONTH ! month)"

definition days_before_month :: "nat \<Rightarrow> nat \<Rightarrow> nat" where
  "days_before_month year month =
     DAYS_BEFORE_MONTH ! month + (if month > 2 \<and> is_leap year then 1 else 0)"

definition ymd2ord :: "nat \<Rightarrow> nat \<Rightarrow> nat \<Rightarrow> nat" where
  "ymd2ord year month day = days_before_year year + days_before_month year month + day"

text \<open>
  \<^verbatim>\<open>_ord2ymd\<close>, in two parts: the year and the day of the year, then the month and the day from
  the day of the year (an estimate of the month that is exact or one too large).
\<close>

definition month_day :: "bool \<Rightarrow> nat \<Rightarrow> nat \<times> nat" where
  "month_day leapyear n =
     (let month = (n + 50) div 32;
          preceding = DAYS_BEFORE_MONTH ! month + (if month > 2 \<and> leapyear then 1 else 0)
      in if preceding > n
         then (month - 1,
               n - (preceding - (DAYS_IN_MONTH ! (month - 1)
                                 + (if month - 1 = 2 \<and> leapyear then 1 else 0))) + 1)
         else (month, n - preceding + 1))"

definition ord2ymd :: "nat \<Rightarrow> nat \<times> nat \<times> nat" where
  "ord2ymd ordinal =
     (let n = ordinal - 1;
          n400 = n div 146097; n = n mod 146097;
          n100 = n div 36524; n = n mod 36524;
          n4 = n div 1461; n = n mod 1461;
          n1 = n div 365; n = n mod 365;
          year = n400 * 400 + 1 + n100 * 100 + n4 * 4 + n1
      in if n1 = 4 \<or> n100 = 4 then (year - 1, 12, 31)
         else case month_day (n1 = 3 \<and> (n4 \<noteq> 24 \<or> n100 = 3)) n of
                (month, day) \<Rightarrow> (year, month, day))"

text \<open>The range checks of the \<^verbatim>\<open>datetime\<close> and \<^verbatim>\<open>timezone\<close> constructors.\<close>

definition check_date_fields :: "nat \<Rightarrow> nat \<Rightarrow> nat \<Rightarrow> bool" where
  "check_date_fields year month day =
     (1 \<le> year \<and> year \<le> MAXYEAR \<and> 1 \<le> month \<and> month \<le> 12
      \<and> 1 \<le> day \<and> day \<le> days_in_month year month)"

definition check_time_fields :: "nat \<Rightarrow> nat \<Rightarrow> nat \<Rightarrow> nat \<Rightarrow> bool" where
  "check_time_fields hour minute second microsecond =
     (hour \<le> 23 \<and> minute \<le> 59 \<and> second \<le> 59 \<and> microsecond \<le> 999999)"

definition check_tzinfo :: "int option \<Rightarrow> bool" where
  "check_tzinfo tz =
     (case tz of None \<Rightarrow> True | Some off \<Rightarrow> - 86400000000 < off \<and> off < 86400000000)"

definition check_fields :: "datetime \<Rightarrow> bool" where
  "check_fields d =
     (check_date_fields (dt_year d) (dt_month d) (dt_day d)
      \<and> check_time_fields (dt_hour d) (dt_minute d) (dt_second d) (dt_microsecond d)
      \<and> check_tzinfo (dt_tzinfo d))"

text \<open>
  \<^verbatim>\<open>datetime.fromisoformat\<close>: \<^verbatim>\<open>TypeError\<close> unless the argument is a str, \<^verbatim>\<open>ValueError\<close> when the
  string is not in a supported format or a field is out of range. Which strings are
  supported, and the fields read from them, differs between Python releases and between
  the C and the Python implementation of the module (3.11 added the basic and the week
  formats). The functions below therefore take the reading of the fields as an argument
  \<open>parse\<close>, so that what is proved of them holds for each release.
\<close>

type_synonym iso_parser = "string \<Rightarrow> datetime option"

definition fromisoformat :: "iso_parser \<Rightarrow> pyval \<Rightarrow> pyexn + datetime" where
  "fromisoformat parse v =
     (case v of
        PStr s \<Rightarrow>
          (case parse s of
             None \<Rightarrow> Inl ValueError
           | Some d \<Rightarrow> if check_fields d then Inr d else Inl ValueError)
      | _ \<Rightarrow> Inl TypeError)"

text \<open>\<^verbatim>\<open>datetime.__add__\<close>: through the ordinal of the date, keeping the time zone.\<close>

definition datetime_add :: "datetime \<Rightarrow> timedelta \<Rightarrow> pyexn + datetime" where
  "datetime_add d td =
     (let total = (((int (ymd2ord (dt_year d) (dt_month d) (dt_day d)) * 24 + int (dt_hour d)) * 60
                     + int (dt_minute d)) * 60 + int (dt_second d)) * 1000000
                  + int (dt_microsecond d) + td;
          days = total div 86400000000;
          seconds = (total mod 86400000000) div 1000000;
          microseconds = total mod 1000000;
          hour = seconds div 3600;
          rem = seconds mod 3600;
          minute = rem div 60;
          second = rem mod 60
      in if 0 < days \<and> days \<le> MAXORDINAL
         then (case ord2ymd (nat days) of
                 (y, m, dd) \<Rightarrow>
                   Inr \<lparr>dt_year = y, dt_month = m, dt_day = dd, dt_hour = nat hour,
                        dt_minute = nat minute, dt_second = nat second,
                        dt_microsecond = nat microseconds, dt_tzinfo = dt_tzinfo d\<rparr>)
         else Inl OverflowError)"

text \<open>\<^verbatim>\<open>datetime.isoformat()\<close> with its default separator and \<^verbatim>\<open>timespec\<close>.\<close>

definition format_time :: "nat \<Rightarrow> nat \<Rightarrow> nat \<Rightarrow> nat \<Rightarrow> string" where
  "format_time hh mm ss us =
     zpad 2 hh @ '':'' @ zpad 2 mm @ '':'' @ zpad 2 ss
     @ (if us \<noteq> 0 then ''.'' @ zpad 6 us else [])"

definition format_offset :: "int option \<Rightarrow> string" where
  "format_offset tz =
     (case tz of
        None \<Rightarrow> []
      | Some off \<Rightarrow>
          (let sign = (if off < 0 then ''-'' else ''+'');
               a = nat \<bar>off\<bar>;
               hh = a div 3600000000;
               r = a mod 3600000000;
               mm = r div 60000000;
               ss = r mod 60000000
           in sign @ zpad 2 hh @ '':'' @ zpad 2 mm
              @ (if ss \<noteq> 0
                 then '':'' @ zpad 2 (ss div 1000000)
                      @ (if ss mod 1000000 \<noteq> 0 then ''.'' @ zpad 6 (ss mod 1000000) else [])
                 else [])))"

definition isoformat :: "datetime \<Rightarrow> string" where
  "isoformat d =
     zpad 4 (dt_year d) @ ''-'' @ zpad 2 (dt_month d) @ ''-'' @ zpad 2 (dt_day d) @ ''T''
     @ format_time (dt_hour d) (dt_minute d) (dt_second d) (dt_microsecond d)
     @ format_offset (dt_tzinfo d)"

subsection \<open>A parser for the documented format\<close>

text \<open>
  One reading of the fields, used to run the functions on concrete events: the strings
  \<^verbatim>\<open>YYYY-MM-DD[*HH[:MM[:SS[.fff[fff]]]][+HH:MM]]\<close>, where \<^verbatim>\<open>*\<close> is any one character. Every
  release of \<^verbatim>\<open>fromisoformat\<close> reads these strings, and reads them so. It is a part of what
  \<^verbatim>\<open>fromisoformat\<close> accepts: an offset with seconds, and the forms that 3.11 added (basic
  and week dates, a final \<^verbatim>\<open>Z\<close>), are not read by it.
\<close>

definition is_digit :: "char \<Rightarrow> bool" where
  "is_digit c = (c \<in> set ''0123456789'')"

definition num :: "string \<Rightarrow> nat" where
  "num s = foldl (\<lambda>a c. 10 * a + (of_char c - 48)) 0 s"

fun two_digits :: "string \<Rightarrow> (nat \<times> string) option" where
  "two_digits (a # b # r) = (if is_digit a \<and> is_digit b then Some (num [a, b], r) else None)"
| "two_digits _ = None"

definition parse_fraction :: "string \<Rightarrow> nat option" where
  "parse_fraction s =
     (if list_all is_digit s \<and> length s = 3 then Some (num s * 1000)
      else if list_all is_digit s \<and> length s = 6 then Some (num s)
      else None)"

definition parse_hh_mm_ss_ff :: "string \<Rightarrow> (nat \<times> nat \<times> nat \<times> nat) option" where
  "parse_hh_mm_ss_ff s =
     (case two_digits s of
        None \<Rightarrow> None
      | Some (hh, r1) \<Rightarrow>
          (case r1 of
             [] \<Rightarrow> Some (hh, 0, 0, 0)
           | c1 # r1' \<Rightarrow>
               if c1 \<noteq> CHR '':'' then None
               else (case two_digits r1' of
                  None \<Rightarrow> None
                | Some (mm, r2) \<Rightarrow>
                    (case r2 of
                       [] \<Rightarrow> Some (hh, mm, 0, 0)
                     | c2 # r2' \<Rightarrow>
                         if c2 \<noteq> CHR '':'' then None
                         else (case two_digits r2' of
                            None \<Rightarrow> None
                          | Some (ss, r3) \<Rightarrow>
                              (case r3 of
                                 [] \<Rightarrow> Some (hh, mm, ss, 0)
                               | c3 # r3' \<Rightarrow>
                                   if c3 \<noteq> CHR ''.'' then None
                                   else (case parse_fraction r3' of
                                      None \<Rightarrow> None
                                    | Some us \<Rightarrow> Some (hh, mm, ss, us))))))))"

definition is_sign :: "char \<Rightarrow> bool" where
  "is_sign c = (c = CHR ''+'' \<or> c = CHR ''-'')"

definition parse_offset :: "string \<Rightarrow> int option option" where
  "parse_offset s =
     (case s of
        [] \<Rightarrow> Some None
      | sg # r \<Rightarrow>
          (case two_digits r of
             None \<Rightarrow> None
           | Some (hh, r1) \<Rightarrow>
               (case r1 of
                  [] \<Rightarrow> None
                | c # r1' \<Rightarrow>
                    (case two_digits r1' of
                       None \<Rightarrow> None
                     | Some (mm, r2) \<Rightarrow>
                         if c = CHR '':'' \<and> r2 = [] \<and> hh \<le> 23 \<and> mm \<le> 59
                         then Some (Some ((if sg = CHR ''-'' then - 1 else 1)
                                          * (int hh * 3600 + int mm * 60) * 1000000))
                         else None))))"

definition parse_isoformat_time ::
  "string \<Rightarrow> (nat \<times> nat \<times> nat \<times> nat \<times> int option) option" where
  "parse_isoformat_time t =
     (case parse_hh_mm_ss_ff (takeWhile (\<lambda>c. \<not> is_sign c) t) of
        None \<Rightarrow> None
      | Some (hh, mm, ss, us) \<Rightarrow>
          (case parse_offset (dropWhile (\<lambda>c. \<not> is_sign c) t) of
             None \<Rightarrow> None
           | Some tz \<Rightarrow> Some (hh, mm, ss, us, tz)))"

definition parse_isoformat_date :: "string \<Rightarrow> (nat \<times> nat \<times> nat) option" where
  "parse_isoformat_date s =
     (if length s = 10 \<and> list_all is_digit (take 4 s) \<and> s ! 4 = CHR ''-''
         \<and> list_all is_digit (take 2 (drop 5 s)) \<and> s ! 7 = CHR ''-''
         \<and> list_all is_digit (drop 8 s)
      then Some (num (take 4 s), num (take 2 (drop 5 s)), num (drop 8 s))
      else None)"

definition iso_parse :: iso_parser where
  "iso_parse s =
     (case parse_isoformat_date (take 10 s) of
        None \<Rightarrow> None
      | Some (y, m, d) \<Rightarrow>
          (case drop 10 s of
             [] \<Rightarrow> Some \<lparr>dt_year = y, dt_month = m, dt_day = d, dt_hour = 0, dt_minute = 0,
                         dt_second = 0, dt_microsecond = 0, dt_tzinfo = None\<rparr>
           | sep # t \<Rightarrow>
               (case parse_isoformat_time t of
                  None \<Rightarrow> None
                | Some (hh, mm, ss, us, tz) \<Rightarrow>
                    Some \<lparr>dt_year = y, dt_month = m, dt_day = d, dt_hour = hh, dt_minute = mm,
                          dt_second = ss, dt_microsecond = us, dt_tzinfo = tz\<rparr>)))"

section \<open>The calendar manager (mcp\_calendar.py)\<close>

text \<open>
  The dict built for the calendar: \<^verbatim>\<open>start\<close> and \<^verbatim>\<open>end\<close> hold either \<^verbatim>\<open>dateTime\<close> and
  \<^verbatim>\<open>timeZone\<close>, or \<^verbatim>\<open>date\<close>; \<^verbatim>\<open>location\<close> may be missing.
\<close>

datatype gcal_time = DateTime string string | Date pyval

record gcal_event =
  g_summary :: pyval
  g_description :: pyval
  g_start :: gcal_time
  g_end :: gcal_time
  g_location :: "pyval option"

definition required_fields :: "string list" where
  "required_fields = [''title'', ''start_date'']"

text \<open>\<^verbatim>\<open>field not in event or not event[field]\<close>\<close>

definition missing :: "event \<Rightarrow> string \<Rightarrow> bool" where
  "missing ev field = (case ev field of None \<Rightarrow> True | Some v \<Rightarrow> \<not> truthy v)"

definition validate_event_data :: "iso_parser \<Rightarrow> event \<Rightarrow> pyexn + bool" where
  "validate_event_data parse ev =
     (if list_ex (missing ev) required_fields then Inr False
      else case dict_item ev ''start_date'' of
             Inl e \<Rightarrow> Inl e
           | Inr v \<Rightarrow>
               (case fromisoformat parse v of
                  Inl e \<Rightarrow> if e = ValueError then Inr False else Inl e
                | Inr d \<Rightarrow> Inr True))"

definition format_event_for_gcal :: "iso_parser \<Rightarrow> event \<Rightarrow> pyexn + gcal_event" where
  "format_event_for_gcal parse ev =
     (let summary = dict_get_default ev ''title'' (PStr ''Untitled Event'');
          description = dict_get_default ev ''description'' (PStr []);
          start_date = dict_get ev ''start_date'';
          start_time = dict_get ev ''start_time'';
          start = (if truthy start_time
                   then DateTime (py_str start_date @ ''T'' @ py_str start_time @ '':00'') ''UTC''
                   else Date start_date);
          end_date = dict_get_default ev ''end_date'' start_date;
          end_time = dict_get ev ''end_time''
      in case (if truthy end_time
               then Inr (DateTime (py_str end_date @ ''T'' @ py_str end_time @ '':00'') ''UTC'')
               else if truthy start_time
               then (case fromisoformat parse
                            (PStr (py_str start_date @ ''T'' @ py_str start_time @ '':00'')) of
                       Inl e \<Rightarrow> Inl e
                     | Inr start_dt \<Rightarrow>
                         (case datetime_add start_dt (timedelta_hours 1) of
                            Inl e \<Rightarrow> Inl e
                          | Inr end_dt \<Rightarrow> Inr (DateTime (isoformat end_dt) ''UTC'')))
               else Inr (Date end_date)) of
           Inl e \<Rightarrow> Inl e
         | Inr end \<Rightarrow>
             (case (if truthy (dict_get ev ''url'')
                    then iadd_str description
                           ([CHR 0x0A, CHR 0x0A] @ ''Source: '' @ py_str (dict_get ev ''url''))
                    else Inr description) of
                Inl e \<Rightarrow> Inl e
              | Inr description' \<Rightarrow>
                  Inr \<lparr>g_summary = summary, g_description = description', g_start = start,
                       g_end = end,
                       g_location = (if truthy (dict_get ev ''location'')
                                     then ev ''location'' else None)\<rparr>))"

text \<open>
  The call that hands the event to the calendar. \<open>simulate_mcp_call\<close> is the placeholder
  of the source; \<open>add_event_via_mcp\<close> takes the call as an argument \<open>sink\<close>, for the
  integration that is to replace it, which may fail or raise.
\<close>

type_synonym calendar_sink = "gcal_event \<Rightarrow> pyexn + bool"

definition simulate_mcp_call :: calendar_sink where
  "simulate_mcp_call gcal_event = Inr True"

text \<open>The body of the \<^verbatim>\<open>try\<close> block, then the whole method with its \<^verbatim>\<open>except Exception\<close>.\<close>

definition add_event_try :: "iso_parser \<Rightarrow> calendar_sink \<Rightarrow> event \<Rightarrow> pyexn + bool" where
  "add_event_try parse sink ev =
     (case validate_event_data parse ev of
        Inl e \<Rightarrow> Inl e
      | Inr valid \<Rightarrow>
          if \<not> valid then Inr False
          else (case format_event_for_gcal parse ev of
                  Inl e \<Rightarrow> Inl e
                | Inr gcal_event \<Rightarrow> sink gcal_event))"

definition add_event_via_mcp :: "iso_parser \<Rightarrow> calendar_sink \<Rightarrow> event \<Rightarrow> pyexn + bool" where
  "add_event_via_mcp parse sink ev =
     (case add_event_try parse sink ev of Inl e \<Rightarrow> Inr False | Inr success \<Rightarrow> Inr success)"

text \<open>
  The event after the call. \<^verbatim>\<open>event.get('description', '')\<close> hands the event's own value to
  \<^verbatim>\<open>gcal_event\<close>, so when that value is a list, \<^verbatim>\<open>gcal_event['description'] += source_info\<close>
  extends the list of the event itself; a str is not changed by \<^verbatim>\<open>+=\<close>. The line is reached
  only when the formatter returns. The sink is taken to read the event it is handed, as
  \<open>simulate_mcp_call\<close> does.
\<close>

definition event_after_format :: "iso_parser \<Rightarrow> event \<Rightarrow> event" where
  "event_after_format parse ev =
     (case ev ''description'' of
        Some (PList xs) \<Rightarrow>
          (case format_event_for_gcal parse ev of
             Inl e \<Rightarrow> ev
           | Inr gcal_event \<Rightarrow>
               if truthy (dict_get ev ''url'')
               then ev(''description'' \<mapsto> g_description gcal_event) else ev)
      | _ \<Rightarrow> ev)"

definition event_after_add :: "iso_parser \<Rightarrow> event \<Rightarrow> event" where
  "event_after_add parse ev =
     (case validate_event_data parse ev of
        Inl e \<Rightarrow> ev
      | Inr valid \<Rightarrow> if \<not> valid then ev else event_after_format parse ev)"

record results =
  successful :: int
  failed :: int

text \<open>
  The loop of \<^verbatim>\<open>batch_add_events\<close> and of \<^verbatim>\<open>process_events\<close>: one call per event, in order;
  an exception of the call would leave the loop.
\<close>

fun tally :: "(event \<Rightarrow> pyexn + bool) \<Rightarrow> event list \<Rightarrow> results \<Rightarrow> pyexn + results" where
  "tally add [] r = Inr r"
| "tally add (ev # evs) r =
     (case add ev of
        Inl e \<Rightarrow> Inl e
      | Inr ok \<Rightarrow>
          tally add evs (if ok then r\<lparr>successful := successful r + 1\<rparr>
                         else r\<lparr>failed := failed r + 1\<rparr>))"

definition batch_add_events ::
  "iso_parser \<Rightarrow> calendar_sink \<Rightarrow> event list \<Rightarrow> pyexn + results" where
  "batch_add_events parse sink events =
     tally (add_event_via_mcp parse sink) events \<lparr>successful = 0, failed = 0\<rparr>"

section \<open>The agent (app.py)\<close>

text \<open>
  \<^verbatim>\<open>scrape_webpage\<close> returns the page's text, or an error text when anything goes wrong: a
  function \<open>fetch\<close> from the URL. The scraped data is a dict in insertion order.
\<close>

type_synonym scraped = "(string \<times> string) list"

fun dict_set :: "scraped \<Rightarrow> string \<Rightarrow> string \<Rightarrow> scraped" where
  "dict_set [] k v = [(k, v)]"
| "dict_set ((k', v') # d) k v = (if k' = k then (k, v) # d else (k', v') # dict_set d k v)"

definition scrape_multiple_pages :: "(string \<Rightarrow> string) \<Rightarrow> string list \<Rightarrow> scraped" where
  "scrape_multiple_pages fetch urls = foldl (\<lambda>d url. dict_set d url (fetch url)) [] urls"

definition demo_event :: "string \<Rightarrow> event" where
  "demo_event url =
     [''title'' \<mapsto> PStr ''Sample Event from Scraped Content'',
      ''start_date'' \<mapsto> PStr ''2025-11-15'',
      ''start_time'' \<mapsto> PStr ''14:00'',
      ''end_date'' \<mapsto> PStr ''2025-11-15'',
      ''end_time'' \<mapsto> PStr ''16:00'',
      ''description'' \<mapsto> PStr ''This is a sample event extracted from the scraped content'',
      ''location'' \<mapsto> PStr ''Online'',
      ''url'' \<mapsto> PStr url]"

definition generate_demo_events :: "scraped \<Rightarrow> event list" where
  "generate_demo_events scraped_content =
     (case scraped_content of
        [] \<Rightarrow> []
      | (url, content) # rest \<Rightarrow>
          if list_ex (\<lambda>kv. length (snd kv) > 100) scraped_content then [demo_event url] else [])"

text \<open>
  \<open>gemini_model\<close> is \<open>None\<close> in demo mode; otherwise it stands for the prompt, the call of
  the model and the decoding of its answer, which may raise.
\<close>

definition extract_events_with_gemini ::
  "(scraped \<Rightarrow> pyexn + event list) option \<Rightarrow> scraped \<Rightarrow> pyexn + event list" where
  "extract_events_with_gemini gemini_model scraped_content =
     (case gemini_model of
        None \<Rightarrow> Inr (generate_demo_events scraped_content)
      | Some model \<Rightarrow>
          (case model scraped_content of Inl e \<Rightarrow> Inr [] | Inr events \<Rightarrow> Inr events))"

text \<open>\<open>manager\<close> is \<^verbatim>\<open>self.calendar_manager.add_event_via_mcp\<close>.\<close>

definition add_event_to_calendar :: "(event \<Rightarrow> pyexn + bool) \<Rightarrow> event \<Rightarrow> pyexn + bool" where
  "add_event_to_calendar manager ev =
     (case manager ev of Inl e \<Rightarrow> Inr False | Inr success \<Rightarrow> Inr success)"

definition process_events :: "(event \<Rightarrow> pyexn + bool) \<Rightarrow> event list \<Rightarrow> pyexn + results" where
  "process_events manager events =
     tally (add_event_to_calendar manager) events \<lparr>successful = 0, failed = 0\<rparr>"

record summary =
  urls_processed :: int
  events_found :: int
  events_added_successfully :: int
  events_failed :: int
  extracted_events :: "event list"

text \<open>
  The events are objects shared with the manager: \<open>after\<close> is the event as the manager's call
  leaves it, \<open>event_after_add\<close> for the calendar manager of the source. The summary holds the
  list of these objects, read after \<^verbatim>\<open>process_events\<close>.
\<close>

definition run_agent ::
  "(string \<Rightarrow> string) \<Rightarrow> (scraped \<Rightarrow> pyexn + event list) option \<Rightarrow> (event \<Rightarrow> pyexn + bool)
     \<Rightarrow> (event \<Rightarrow> event) \<Rightarrow> string list \<Rightarrow> pyexn + summary" where
  "run_agent fetch gemini_model manager after urls =
     (let scraped_content = scrape_multiple_pages fetch urls in
      case extract_events_with_gemini gemini_model scraped_content of
        Inl e \<Rightarrow> Inl e
      | Inr events \<Rightarrow>
          (case process_events manager events of
             Inl e \<Rightarrow> Inl e
           | Inr results \<Rightarrow>
               Inr \<lparr>urls_processed = int (length urls),
                    events_found = int (length events),
                    events_added_successfully = successful results,
                    events_failed = failed results,
                    extracted_events = map after events\<rparr>))"

section \<open>Words of the specification\<close>

text \<open>
  A record fails when its validation, its normalization or the sink call fails: by
  returning false or by raising.
\<close>

definition record_fails :: "iso_parser \<Rightarrow> calendar_sink \<Rightarrow> event \<Rightarrow> bool" where
  "record_fails parse sink ev =
     (case validate_event_data parse ev of
        Inl e \<Rightarrow> True
      | Inr valid \<Rightarrow>
          if \<not> valid then True
          else (case format_event_for_gcal parse ev of
                  Inl e \<Rightarrow> True
                | Inr g \<Rightarrow> (case sink g of Inl e \<Rightarrow> True | Inr ok \<Rightarrow> \<not> ok)))"

text \<open>A string of the form \<^verbatim>\<open>YYYY-MM-DD\<close> that names a day of the calendar.\<close>

definition is_calendar_date :: "string \<Rightarrow> bool" where
  "is_calendar_date s =
     (case parse_isoformat_date s of
        None \<Rightarrow> False
      | Some (y, m, d) \<Rightarrow> check_date_fields y m d)"

text \<open>
  The instant of a datetime on its own clock: the microseconds from the start of day 0, the
  day before 0001-01-01, to its date and time of day.
\<close>

definition instant :: "datetime \<Rightarrow> int" where
  "instant d =
     (((int (ymd2ord (dt_year d) (dt_month d) (dt_day d)) * 24 + int (dt_hour d)) * 60
       + int (dt_minute d)) * 60 + int (dt_second d)) * 1000000 + int (dt_microsecond d)"

text \<open>The text \<^verbatim>\<open>f"{start_date}T{start_time}:00"\<close> that the formatter builds for a timed start.\<close>

definition start_string :: "event \<Rightarrow> string" where
  "start_string ev =
     py_str (dict_get ev ''start_date'') @ ''T'' @ py_str (dict_get ev ''start_time'') @ '':00''"

text \<open>How many events of a list a call accepts, and how many it does not.\<close>

definition count_added :: "(event \<Rightarrow> pyexn + bool) \<Rightarrow> event list \<Rightarrow> int" where
  "count_added add events = int (length (filter (\<lambda>ev. add ev = Inr True) events))"

definition count_failed :: "(event \<Rightarrow> pyexn + bool) \<Rightarrow> event list \<Rightarrow> int" where
  "count_failed add events = int (length (filter (\<lambda>ev. add ev \<noteq> Inr True) events))"

text \<open>The events of the specification's example scenarios.\<close>

definition tech_talk :: event where
  "tech_talk = [''title'' \<mapsto> PStr ''Tech Talk'', ''start_date'' \<mapsto> PStr ''2025-06-01'',
                ''start_time'' \<mapsto> PStr ''14:00'']"

definition festival :: event where
  "festival = [''title'' \<mapsto> PStr ''Festival'', ''start_date'' \<mapsto> PStr ''2025-07-04'',
               ''end_date'' \<mapsto> PStr ''2025-07-06'']"

definition no_title :: event where
  "no_title = [''start_date'' \<mapsto> PStr ''2025-01-01'']"

definition not_a_date :: event where
  "not_a_date = [''title'' \<mapsto> PStr ''X'', ''start_date'' \<mapsto> PStr ''not-a-date'']"

definition great_talk :: event where
  "great_talk = [''title'' \<mapsto> PStr ''Talk'', ''start_date'' \<mapsto> PStr ''2025-06-01'',
                 ''description'' \<mapsto> PStr ''Great talk'',
                 ''url'' \<mapsto> PStr ''https://src.example/e'']"

definition standup :: event where
  "standup = [''title'' \<mapsto> PStr ''Standup'', ''start_date'' \<mapsto> PStr ''2025-06-01'',
              ''end_time'' \<mapsto> PStr ''15:00'']"

definition bad_start_time :: event where
  "bad_start_time = [''title'' \<mapsto> PStr ''Tech Talk'', ''start_date'' \<mapsto> PStr ''2025-06-01'',
                     ''start_time'' \<mapsto> PStr ''25:00'']"

definition bad_times :: event where
  "bad_times = [''title'' \<mapsto> PStr ''Tech Talk'', ''start_date'' \<mapsto> PStr ''2025-06-01'',
                ''start_time'' \<mapsto> PStr ''abc'', ''end_time'' \<mapsto> PStr ''xyz'']"

definition date_with_time :: event where
  "date_with_time = [''title'' \<mapsto> PStr ''X'', ''start_date'' \<mapsto> PStr ''2025-06-01T14:00:00'']"

definition int_date :: event where
  "int_date = [''title'' \<mapsto> PStr ''X'', ''start_date'' \<mapsto> PInt 20250601]"

definition list_description :: event where
  "list_description = [''title'' \<mapsto> PStr ''T'', ''start_date'' \<mapsto> PStr ''2025-06-01'',
                       ''description'' \<mapsto> PList [PStr ''a''], ''url'' \<mapsto> PStr ''ab'']"

text \<open>A model whose answer decodes to that one event.\<close>

definition answering_model :: "scraped \<Rightarrow> pyexn + event list" where
  "answering_model scraped_content = Inr [list_description]"

text \<open>A sink that raises, and one that reports failure.\<close>

definition raising_sink :: calendar_sink where
  "raising_sink gcal_event = Inl OverflowError"

definition refusing_sink :: calendar_sink where
  "refusing_sink gcal_event = Inr False"

text \<open>A page of 101 characters, for the demo mode of the extractor.\<close>

definition long_page :: "string \<Rightarrow> string" where
  "long_page url = replicate 101 CHR ''x''"

section \<open>Evaluation\<close>

lemma zeros_numeral:
  "replicate (numeral k) CHR ''0'' = CHR ''0'' # replicate (numeral k - 1) CHR ''0''"
  by (simp add: numeral_eq_Suc)

lemma dec_small: "n < 10 \<Longrightarrow> dec n = [digit_char n]"
  by (simp add: dec.simps)

lemma dec_big: "10 \<le> n \<Longrightarrow> dec n = dec (n div 10) @ [digit_char (n mod 10)]"
  by (subst dec.simps) simp

lemmas render_eval = zpad_def dec_small dec_big digit_char_def zeros_numeral str_int_def
  isoformat_def format_time_def format_offset_def py_str_def

lemmas parse_eval = iso_parse_def parse_isoformat_date_def parse_isoformat_time_def
  parse_hh_mm_ss_ff_def parse_offset_def parse_fraction_def is_sign_def is_digit_def num_def

lemmas check_eval = check_fields_def check_date_fields_def check_time_fields_def check_tzinfo_def
  MAXYEAR_def days_in_month_def DAYS_IN_MONTH_def is_leap_def

lemmas add_eval = datetime_add_def timedelta_hours_def ymd2ord_def days_before_year_def
  days_before_month_def DAYS_BEFORE_MONTH_def DAYS_IN_MONTH_def is_leap_def MAXORDINAL_def
  ord2ymd_def month_day_def Let_def

lemmas dict_eval = dict_get_def dict_get_default_def dict_item_def missing_def required_fields_def

section \<open>The calendar\<close>

text \<open>The ordinal of the date that \<open>ord2ymd\<close> gives for a day is that day.\<close>

lemma month_cases:
  assumes "1 \<le> month" "month \<le> (12::nat)"
  obtains "month = 1" | "month = 2" | "month = 3" | "month = 4" | "month = 5" | "month = 6"
    | "month = 7" | "month = 8" | "month = 9" | "month = 10" | "month = 11" | "month = 12"
  using assms by atomize_elim arith

lemma month_day_ok:
  assumes "n < 365"
  shows "case month_day leap n of (m, d) \<Rightarrow>
           DAYS_BEFORE_MONTH ! m + (if m > 2 \<and> leap then 1 else 0) + d = n + 1
           \<and> 1 \<le> m \<and> m \<le> 12 \<and> 1 \<le> d \<and> d \<le> DAYS_IN_MONTH ! m + (if m = 2 \<and> leap then 1 else 0)"
proof -
  define month where "month = (n + 50) div 32"
  have rng: "32 * month \<le> n + 50" "n + 50 < 32 * month + 32"
    unfolding month_def by arith+
  have "1 \<le> month" "month \<le> 12"
    using assms unfolding month_def by arith+
  have md: "month_day leap n = (let preceding = DAYS_BEFORE_MONTH ! month + (if month > 2 \<and> leap then 1 else 0)
      in if preceding > n
         then (month - 1,
               n - (preceding - (DAYS_IN_MONTH ! (month - 1)
                                 + (if month - 1 = 2 \<and> leap then 1 else 0))) + 1)
         else (month, n - preceding + 1))"
    by (simp add: month_day_def month_def Let_def)
  from \<open>1 \<le> month\<close> \<open>month \<le> 12\<close> have "case (let preceding = DAYS_BEFORE_MONTH ! month + (if month > 2 \<and> leap then 1 else 0)
      in if preceding > n
         then (month - 1,
               n - (preceding - (DAYS_IN_MONTH ! (month - 1)
                                 + (if month - 1 = 2 \<and> leap then 1 else 0))) + 1)
         else (month, n - preceding + 1)) of (m, d) \<Rightarrow>
           DAYS_BEFORE_MONTH ! m + (if m > 2 \<and> leap then 1 else 0) + d = n + 1
           \<and> 1 \<le> m \<and> m \<le> 12 \<and> 1 \<le> d \<and> d \<le> DAYS_IN_MONTH ! m + (if m = 2 \<and> leap then 1 else 0)"
  proof (cases month rule: month_cases)
    case 1 then show ?thesis using rng by (simp add: DAYS_BEFORE_MONTH_def DAYS_IN_MONTH_def Let_def; arith)
  next
    case 2 then show ?thesis using rng by (simp add: DAYS_BEFORE_MONTH_def DAYS_IN_MONTH_def Let_def; arith)
  next
    case 3 then show ?thesis using rng by (simp add: DAYS_BEFORE_MONTH_def DAYS_IN_MONTH_def Let_def; arith)
  next
    case 4 then show ?thesis using rng by (simp add: DAYS_BEFORE_MONTH_def DAYS_IN_MONTH_def Let_def; arith)
  next
    case 5 then show ?thesis using rng by (simp add: DAYS_BEFORE_MONTH_def DAYS_IN_MONTH_def Let_def; arith)
  next
    case 6 then show ?thesis using rng by (simp add: DAYS_BEFORE_MONTH_def DAYS_IN_MONTH_def Let_def; arith)
  next
    case 7 then show ?thesis using rng by (simp add: DAYS_BEFORE_MONTH_def DAYS_IN_MONTH_def Let_def; arith)
  next
    case 8 then show ?thesis using rng by (simp add: DAYS_BEFORE_MONTH_def DAYS_IN_MONTH_def Let_def; arith)
  next
    case 9 then show ?thesis using rng by (simp add: DAYS_BEFORE_MONTH_def DAYS_IN_MONTH_def Let_def; arith)
  next
    case 10 then show ?thesis using rng by (simp add: DAYS_BEFORE_MONTH_def DAYS_IN_MONTH_def Let_def; arith)
  next
    case 11 then show ?thesis using rng by (simp add: DAYS_BEFORE_MONTH_def DAYS_IN_MONTH_def Let_def; arith)
  next
    case 12 then show ?thesis using rng assms by (simp add: DAYS_BEFORE_MONTH_def DAYS_IN_MONTH_def Let_def; arith)
  qed
  then show ?thesis
    unfolding md .
qed



lemma mod_full: "0 < x \<Longrightarrow> x \<le> k \<Longrightarrow> x mod k = 0 \<longleftrightarrow> x = (k::nat)"
  by (metis le_neq_implies_less mod_less mod_self not_less_zero)

lemma dby_general:
  assumes "b \<le> 3" "c \<le> 24" "e \<le> 3"
  shows "days_before_year (400 * a + 100 * b + 4 * c + e + 1)
           = 146097 * a + 36524 * b + 1461 * c + 365 * e"
proof -
  have 1: "(400 * a + 100 * b + 4 * c + e) div 4 = 100 * a + 25 * b + c"
    using assms by arith
  have 2: "(400 * a + 100 * b + 4 * c + e) div 100 = 4 * a + b"
    using assms by arith
  have 3: "(400 * a + 100 * b + 4 * c + e) div 400 = a"
    using assms by arith
  show ?thesis
    by (simp add: days_before_year_def Let_def 1 2 3)
qed

lemma leap_general:
  assumes "b \<le> 3" "c \<le> 24" "e \<le> 3"
  shows "is_leap (400 * a + 100 * b + 4 * c + e + 1) \<longleftrightarrow> e = 3 \<and> (c \<noteq> 24 \<or> b = 3)"
proof -
  have "(400 * a + 100 * b + 4 * c + e + 1) mod 4 = ((e + 1) + 4 * (100 * a + 25 * b + c)) mod 4"
    by (simp add: algebra_simps)
  also have "\<dots> = (e + 1) mod 4"
    by (rule mod_mult_self2)
  finally have "(400 * a + 100 * b + 4 * c + e + 1) mod 4 = 0 \<longleftrightarrow> e + 1 = 4"
    using assms mod_full [of "e + 1" 4] by simp
  then have 1: "(400 * a + 100 * b + 4 * c + e + 1) mod 4 = 0 \<longleftrightarrow> e = 3"
    by auto
  have "(400 * a + 100 * b + 4 * c + e + 1) mod 100 = ((4 * c + e + 1) + 100 * (4 * a + b)) mod 100"
    by (simp add: algebra_simps)
  also have "\<dots> = (4 * c + e + 1) mod 100"
    by (rule mod_mult_self2)
  finally have "(400 * a + 100 * b + 4 * c + e + 1) mod 100 = 0 \<longleftrightarrow> 4 * c + e + 1 = 100"
    using assms mod_full [of "4 * c + e + 1" 100] by simp
  moreover have "4 * c + e + 1 = 100 \<longleftrightarrow> c = 24 \<and> e = 3"
    using assms by arith
  ultimately have 2: "(400 * a + 100 * b + 4 * c + e + 1) mod 100 = 0 \<longleftrightarrow> c = 24 \<and> e = 3"
    by simp
  have "(400 * a + 100 * b + 4 * c + e + 1) mod 400 = ((100 * b + 4 * c + e + 1) + 400 * a) mod 400"
    by (simp add: algebra_simps)
  also have "\<dots> = (100 * b + 4 * c + e + 1) mod 400"
    by (rule mod_mult_self2)
  finally have "(400 * a + 100 * b + 4 * c + e + 1) mod 400 = 0
      \<longleftrightarrow> 100 * b + 4 * c + e + 1 = 400"
    using assms mod_full [of "100 * b + 4 * c + e + 1" 400] by simp
  moreover have "100 * b + 4 * c + e + 1 = 400 \<longleftrightarrow> b = 3 \<and> c = 24 \<and> e = 3"
    using assms by arith
  ultimately have 3: "(400 * a + 100 * b + 4 * c + e + 1) mod 400 = 0
      \<longleftrightarrow> b = 3 \<and> c = 24 \<and> e = 3"
    by simp
  show ?thesis
    unfolding is_leap_def 1 2 3 by blast
qed

lemma ymd2ord_dec31_leap:
  assumes "b \<le> 3" "c \<le> 24" "c \<noteq> 24 \<or> b = 3"
  shows "ymd2ord (400 * a + 100 * b + 4 * c + 3 + 1) 12 31
           = 146097 * a + 36524 * b + 1461 * c + 365 * 4 + 1"
  using assms leap_general [of b c 3 a] dby_general [of b c 3 a]
  by (simp add: ymd2ord_def days_before_month_def DAYS_BEFORE_MONTH_def)

lemma ymd2ord_ord2ymd:
  assumes "0 < n"
  shows "(case ord2ymd n of (y, m, d) \<Rightarrow> ymd2ord y m d) = n"
proof -
  define n0 where "n0 = n - 1"
  define a where "a = n0 div 146097"
  define r where "r = n0 mod 146097"
  define b where "b = r div 36524"
  define r1 where "r1 = r mod 36524"
  define c where "c = r1 div 1461"
  define r2 where "r2 = r1 mod 1461"
  define e where "e = r2 div 365"
  define r3 where "r3 = r2 mod 365"
  define Y where "Y = 400 * a + 100 * b + 4 * c + e"
  have n0: "n = n0 + 1"
    using assms by (simp add: n0_def)
  have d1: "n0 = 146097 * a + r" "r < 146097"
    by (simp_all add: a_def r_def)
  have d2: "r = 36524 * b + r1" "r1 < 36524"
    by (simp_all add: b_def r1_def)
  have d3: "r1 = 1461 * c + r2" "r2 < 1461"
    by (simp_all add: c_def r2_def)
  have d4: "r2 = 365 * e + r3" "r3 < 365"
    by (simp_all add: e_def r3_def)
  have n: "n = 146097 * a + 36524 * b + 1461 * c + 365 * e + r3 + 1"
    using n0 d1 d2 d3 d4 by simp
  have b4: "b \<le> 4"
    using d1(2) d2(1) by linarith
  have c24: "c \<le> 24"
    using d2(2) d3(1) by linarith
  have e4: "e \<le> 4"
    using d3(2) d4(1) by linarith
  have o: "ord2ymd n =
      (if e = 4 \<or> b = 4 then (a * 400 + 1 + b * 100 + c * 4 + e - 1, 12, 31)
       else case month_day (e = 3 \<and> (c \<noteq> 24 \<or> b = 3)) r3 of
              (month, day) \<Rightarrow> (a * 400 + 1 + b * 100 + c * 4 + e, month, day))"
    unfolding ord2ymd_def Let_def e_def r3_def r2_def c_def r1_def b_def r_def a_def n0_def
    by (rule refl)
  have Y1: "a * 400 + 1 + b * 100 + c * 4 + e = Y + 1"
    by (simp add: Y_def)
  have Y0: "a * 400 + 1 + b * 100 + c * 4 + e - 1 = Y"
    by (simp add: Y_def)
  have o': "ord2ymd n =
      (if e = 4 \<or> b = 4 then (Y, 12, 31)
       else case month_day (e = 3 \<and> (c \<noteq> 24 \<or> b = 3)) r3 of
              (month, day) \<Rightarrow> (Y + 1, month, day))"
    unfolding o Y1 by simp
  show ?thesis
  proof (cases "b = 4")
    case True
    have "r1 = 0"
      using d1(2) d2(1) True by linarith
    then have z: "c = 0" "e = 0" "r3 = 0"
      using d3(1) d4(1) by simp_all
    have "Y = 400 * a + 100 * 3 + 4 * 24 + 3 + 1"
      by (simp add: Y_def True z)
    then have "ymd2ord Y 12 31 = 146097 * a + 36524 * 3 + 1461 * 24 + 365 * 4 + 1"
      using ymd2ord_dec31_leap [of 3 24 a] by simp
    then have "ymd2ord Y 12 31 = n"
      by (simp add: n True z)
    with True show ?thesis
      by (simp add: o')
  next
    case b: False
    with b4 have b3: "b \<le> 3"
      by simp
    show ?thesis
    proof (cases "e = 4")
      case True
      have z: "r3 = 0"
        using d3(2) d4(1) True by linarith
      have "c \<noteq> 24"
        using d2(2) d3(1) d4(1) True by linarith
      moreover have "Y = 400 * a + 100 * b + 4 * c + 3 + 1"
        by (simp add: Y_def True)
      ultimately have "ymd2ord Y 12 31 = 146097 * a + 36524 * b + 1461 * c + 365 * 4 + 1"
        using ymd2ord_dec31_leap [of b c a] b3 c24 by simp
      then have "ymd2ord Y 12 31 = n"
        by (simp add: n True z)
      with True show ?thesis
        by (simp add: o')
    next
      case False
      with e4 have e3: "e \<le> 3"
        by simp
      obtain m d where md: "month_day (e = 3 \<and> (c \<noteq> 24 \<or> b = 3)) r3 = (m, d)"
        by (cases "month_day (e = 3 \<and> (c \<noteq> 24 \<or> b = 3)) r3")
      from month_day_ok [OF d4(2), of "e = 3 \<and> (c \<noteq> 24 \<or> b = 3)"] md
      have k: "DAYS_BEFORE_MONTH ! m + (if m > 2 \<and> (e = 3 \<and> (c \<noteq> 24 \<or> b = 3)) then 1 else 0) + d
                = r3 + 1"
        by simp
      have dby: "days_before_year (Y + 1) = 146097 * a + 36524 * b + 1461 * c + 365 * e"
        unfolding Y_def using b3 c24 e3 by (rule dby_general)
      have leap: "is_leap (Y + 1) \<longleftrightarrow> e = 3 \<and> (c \<noteq> 24 \<or> b = 3)"
        unfolding Y_def using b3 c24 e3 by (rule leap_general)
      have "ymd2ord (Y + 1) m d = n"
        unfolding ymd2ord_def days_before_month_def dby leap n using k by simp
      with b False md show ?thesis
        by (simp add: o')
    qed
  qed
qed

text \<open>\<open>datetime_add\<close> moves the instant by the timedelta and keeps the time zone.\<close>

lemma hms_recompose:
  fixes s :: int
  shows "((s div 3600) * 60 + (s mod 3600) div 60) * 60 + (s mod 3600) mod 60 = s"
proof -
  have 1: "(s mod 3600) div 60 * 60 + (s mod 3600) mod 60 = s mod 3600"
    by (rule div_mult_mod_eq)
  have 2: "s div 3600 * 3600 + s mod 3600 = s"
    by (rule div_mult_mod_eq)
  have "((s div 3600) * 60 + (s mod 3600) div 60) * 60 + (s mod 3600) mod 60
      = s div 3600 * 3600 + ((s mod 3600) div 60 * 60 + (s mod 3600) mod 60)"
    by (simp only: distrib_right mult.assoc add.assoc)
  also have "\<dots> = s"
    unfolding 1 2 ..
  finally show ?thesis .
qed

lemma micros_recompose:
  fixes t :: int
  shows "(t div 86400000000 * 86400 + (t mod 86400000000) div 1000000) * 1000000 + t mod 1000000 = t"
proof -
  have "(1000000::int) dvd 86400000000"
    by simp
  then have m: "(t mod 86400000000) mod 1000000 = t mod 1000000"
    by (rule mod_mod_cancel)
  have 1: "(t mod 86400000000) div 1000000 * 1000000 + (t mod 86400000000) mod 1000000
      = t mod 86400000000"
    by (rule div_mult_mod_eq)
  have 2: "t div 86400000000 * 86400000000 + t mod 86400000000 = t"
    by (rule div_mult_mod_eq)
  have "(t div 86400000000 * 86400 + (t mod 86400000000) div 1000000) * 1000000 + t mod 1000000
      = t div 86400000000 * 86400000000
        + ((t mod 86400000000) div 1000000 * 1000000 + (t mod 86400000000) mod 1000000)"
    unfolding m by (simp only: distrib_right mult.assoc add.assoc)
  also have "\<dots> = t"
    unfolding 1 2 ..
  finally show ?thesis .
qed

lemma datetime_add_instant:
  assumes "datetime_add d td = Inr d'"
  shows "instant d' = instant d + td \<and> dt_tzinfo d' = dt_tzinfo d"
proof -
  define total where "total = instant d + td"
  define days where "days = total div 86400000000"
  define seconds where "seconds = (total mod 86400000000) div 1000000"
  define micros where "micros = total mod 1000000"
  obtain y m dd where o: "ord2ymd (nat days) = (y, m, dd)"
    by (cases "ord2ymd (nat days)")
  have a: "datetime_add d td =
      (if 0 < days \<and> days \<le> MAXORDINAL
       then Inr \<lparr>dt_year = y, dt_month = m, dt_day = dd, dt_hour = nat (seconds div 3600),
                 dt_minute = nat (seconds mod 3600 div 60), dt_second = nat (seconds mod 3600 mod 60),
                 dt_microsecond = nat micros, dt_tzinfo = dt_tzinfo d\<rparr>
       else Inl OverflowError)"
    unfolding datetime_add_def Let_def instant_def [symmetric] total_def [symmetric]
      days_def [symmetric] seconds_def [symmetric] micros_def [symmetric] o
    by simp
  from assms a have pos: "0 < days"
    and d': "d' = \<lparr>dt_year = y, dt_month = m, dt_day = dd, dt_hour = nat (seconds div 3600),
                 dt_minute = nat (seconds mod 3600 div 60), dt_second = nat (seconds mod 3600 mod 60),
                 dt_microsecond = nat micros, dt_tzinfo = dt_tzinfo d\<rparr>"
    by (auto split: if_splits)
  from pos have "0 < nat days"
    by simp
  from ymd2ord_ord2ymd [OF this] o have ord: "int (ymd2ord y m dd) = days"
    using pos by simp
  have s0: "0 \<le> seconds"
    unfolding seconds_def by (simp add: pos_imp_zdiv_nonneg_iff)
  have m0: "0 \<le> micros"
    unfolding micros_def by simp
  have h0: "0 \<le> seconds div 3600" "0 \<le> seconds mod 3600 div 60" "0 \<le> seconds mod 3600 mod 60"
    using s0 by (simp_all add: pos_imp_zdiv_nonneg_iff)
  have "instant d' = (((days * 24 + seconds div 3600) * 60 + seconds mod 3600 div 60) * 60
      + seconds mod 3600 mod 60) * 1000000 + micros"
    unfolding instant_def d' using h0 m0 ord by simp
  also have "\<dots> = (days * 86400 + ((seconds div 3600 * 60 + seconds mod 3600 div 60) * 60
      + seconds mod 3600 mod 60)) * 1000000 + micros"
    by (simp only: distrib_right mult.assoc add.assoc)
  also have "\<dots> = (days * 86400 + seconds) * 1000000 + micros"
    unfolding hms_recompose ..
  also have "\<dots> = total"
    unfolding days_def seconds_def micros_def by (rule micros_recompose)
  finally show ?thesis
    by (simp add: total_def d')
qed

section \<open>The except clauses\<close>

lemma add_event_via_mcp_cases:
  "add_event_via_mcp parse sink ev = Inr True \<or> add_event_via_mcp parse sink ev = Inr False"
  by (cases "add_event_try parse sink ev") (auto simp: add_event_via_mcp_def)

lemma add_event_via_mcp_fails:
  "add_event_via_mcp parse sink ev = Inr (\<not> record_fails parse sink ev)"
  by (simp add: add_event_via_mcp_def add_event_try_def record_fails_def
      split: sum.splits)

lemma add_event_to_calendar_cases:
  "add_event_to_calendar manager ev = Inr (manager ev = Inr True)"
  by (cases "manager ev") (auto simp: add_event_to_calendar_def)

section \<open>The tally\<close>

lemma tally_bool:
  "tally (\<lambda>ev. Inr (f ev)) events r =
     Inr \<lparr>successful = successful r + int (length (filter f events)),
          failed = failed r + int (length (filter (\<lambda>ev. \<not> f ev) events))\<rparr>"
  by (induction events arbitrary: r) auto

lemma process_events_counts:
  "process_events manager events =
     Inr \<lparr>successful = count_added manager events, failed = count_failed manager events\<rparr>"
proof -
  have "add_event_to_calendar manager = (\<lambda>ev. Inr (manager ev = Inr True))"
    by (rule ext) (rule add_event_to_calendar_cases)
  then show ?thesis
    by (simp add: process_events_def tally_bool count_added_def count_failed_def)
qed

lemma batch_add_events_counts:
  "batch_add_events parse sink events =
     Inr \<lparr>successful = count_added (add_event_via_mcp parse sink) events,
          failed = count_failed (add_event_via_mcp parse sink) events\<rparr>"
proof -
  have "add_event_via_mcp parse sink = (\<lambda>ev. Inr (\<not> record_fails parse sink ev))"
    by (rule ext) (rule add_event_via_mcp_fails)
  then show ?thesis
    by (simp add: batch_add_events_def tally_bool count_added_def count_failed_def)
qed

lemma count_added_failed: "count_added add events + count_failed add events = int (length events)"
  unfolding count_added_def count_failed_def
  using sum_length_filter_compl [of "\<lambda>ev. add ev = Inr True" events] by simp

lemma count_failed_via_mcp:
  "count_failed (add_event_via_mcp parse sink) events
     = int (length (filter (record_fails parse sink) events))"
  by (simp add: count_failed_def add_event_via_mcp_fails)

section \<open>The example events\<close>

lemma festival_valid: "validate_event_data iso_parse festival = Inr True"
  by (simp add: validate_event_data_def festival_def dict_eval fromisoformat_def parse_eval
      check_eval)

lemma festival_format:
  "format_event_for_gcal iso_parse festival =
     Inr \<lparr>g_summary = PStr ''Festival'', g_description = PStr [],
          g_start = Date (PStr ''2025-07-04''), g_end = Date (PStr ''2025-07-06''),
          g_location = None\<rparr>"
  by (simp add: format_event_for_gcal_def festival_def dict_eval Let_def)

lemma no_title_invalid: "validate_event_data iso_parse no_title = Inr False"
  by (simp add: validate_event_data_def no_title_def dict_eval)

lemma great_talk_valid: "validate_event_data iso_parse great_talk = Inr True"
  by (simp add: validate_event_data_def great_talk_def dict_eval fromisoformat_def parse_eval
      check_eval)

lemma great_talk_format:
  "format_event_for_gcal iso_parse great_talk =
     Inr \<lparr>g_summary = PStr ''Talk'',
          g_description = PStr (''Great talk'' @ [CHR 0x0A, CHR 0x0A]
                                @ ''Source: https://src.example/e''),
          g_start = Date (PStr ''2025-06-01''), g_end = Date (PStr ''2025-06-01''),
          g_location = None\<rparr>"
  by (simp add: format_event_for_gcal_def great_talk_def dict_eval iadd_str_def py_str_def Let_def)

lemma int_date_raises: "validate_event_data iso_parse int_date = Inl TypeError"
  by (simp add: validate_event_data_def int_date_def dict_eval fromisoformat_def)

section \<open>Claims\<close>

text \<open>
  C3. The batch processor attempts every record of a sequence of \<open>N\<close> records, whatever
  happens to the records before it: with \<open>K\<close> the number of records that fail validation,
  normalization or the sink call, the tally is \<open>successful = N - K\<close> and \<open>failed = K\<close>,
  for \<^verbatim>\<open>process_events\<close> over the calendar manager as for \<^verbatim>\<open>batch_add_events\<close>, so that
  \<open>successful + failed = N\<close>.
\<close>

theorem batch_tally:
  "process_events (add_event_via_mcp parse sink) events =
     Inr \<lparr>successful = int (length events) - int (length (filter (record_fails parse sink) events)),
          failed = int (length (filter (record_fails parse sink) events))\<rparr>
   \<and> batch_add_events parse sink events =
     Inr \<lparr>successful = int (length events) - int (length (filter (record_fails parse sink) events)),
          failed = int (length (filter (record_fails parse sink) events))\<rparr>"
proof -
  let ?add = "add_event_via_mcp parse sink"
  have k: "count_failed ?add events = int (length (filter (record_fails parse sink) events))"
    by (rule count_failed_via_mcp)
  have "count_added ?add events = int (length events) - count_failed ?add events"
    using count_added_failed [of ?add events] by simp
  with k show ?thesis
    by (simp add: process_events_counts batch_add_events_counts)
qed

theorem batch_tally_witness:
  "process_events (add_event_via_mcp iso_parse simulate_mcp_call) [festival, no_title, great_talk]
     = Inr \<lparr>successful = 2, failed = 1\<rparr>
   \<and> batch_add_events iso_parse simulate_mcp_call [festival, no_title, great_talk]
     = Inr \<lparr>successful = 2, failed = 1\<rparr>"
proof -
  have "\<not> record_fails iso_parse simulate_mcp_call festival"
    by (simp add: record_fails_def festival_valid festival_format simulate_mcp_call_def)
  moreover have "record_fails iso_parse simulate_mcp_call no_title"
    by (simp add: record_fails_def no_title_invalid)
  moreover have "\<not> record_fails iso_parse simulate_mcp_call great_talk"
    by (simp add: record_fails_def great_talk_valid great_talk_format simulate_mcp_call_def)
  ultimately show ?thesis
    using batch_tally [of iso_parse simulate_mcp_call "[festival, no_title, great_talk]"]
    by simp
qed

text \<open>
  C7. When the call that submits a record raises, or returns false, the exception is
  caught, the record is counted as failed, and the records before and after it are
  counted as they would be without it. This holds for \<^verbatim>\<open>process_events\<close> around any
  calendar manager, and for \<^verbatim>\<open>batch_add_events\<close> around any sink that is handed the
  normalized event.
\<close>

theorem sink_failure_counted:
  "((\<exists>e. manager ev = Inl e) \<or> manager ev = Inr False \<longrightarrow>
      add_event_to_calendar manager ev = Inr False
      \<and> process_events manager (pre @ ev # post) =
          Inr \<lparr>successful = count_added manager pre + count_added manager post,
               failed = count_failed manager pre + 1 + count_failed manager post\<rparr>)
   \<and> (validate_event_data parse ev = Inr True \<and> format_event_for_gcal parse ev = Inr g
       \<and> ((\<exists>e. sink g = Inl e) \<or> sink g = Inr False) \<longrightarrow>
      add_event_via_mcp parse sink ev = Inr False
      \<and> batch_add_events parse sink (pre @ ev # post) =
          Inr \<lparr>successful = count_added (add_event_via_mcp parse sink) pre
                            + count_added (add_event_via_mcp parse sink) post,
               failed = count_failed (add_event_via_mcp parse sink) pre + 1
                        + count_failed (add_event_via_mcp parse sink) post\<rparr>)"
proof (intro conjI impI)
  assume "(\<exists>e. manager ev = Inl e) \<or> manager ev = Inr False"
  then have bad: "manager ev \<noteq> Inr True"
    by auto
  then show "add_event_to_calendar manager ev = Inr False"
    by (simp add: add_event_to_calendar_cases)
  from bad show "process_events manager (pre @ ev # post) =
      Inr \<lparr>successful = count_added manager pre + count_added manager post,
           failed = count_failed manager pre + 1 + count_failed manager post\<rparr>"
    by (simp add: process_events_counts count_added_def count_failed_def)
next
  assume a: "validate_event_data parse ev = Inr True \<and> format_event_for_gcal parse ev = Inr g
       \<and> ((\<exists>e. sink g = Inl e) \<or> sink g = Inr False)"
  then show r: "add_event_via_mcp parse sink ev = Inr False"
    by (auto simp: add_event_via_mcp_def add_event_try_def)
  then show "batch_add_events parse sink (pre @ ev # post) =
      Inr \<lparr>successful = count_added (add_event_via_mcp parse sink) pre
                        + count_added (add_event_via_mcp parse sink) post,
           failed = count_failed (add_event_via_mcp parse sink) pre + 1
                    + count_failed (add_event_via_mcp parse sink) post\<rparr>"
    by (simp add: batch_add_events_counts count_added_def count_failed_def)
qed

theorem sink_failure_counted_witness:
  "add_event_via_mcp iso_parse raising_sink festival = Inr False
   \<and> add_event_to_calendar (add_event_try iso_parse raising_sink) festival = Inr False
   \<and> process_events (add_event_try iso_parse raising_sink) [great_talk, festival, no_title]
       = Inr \<lparr>successful = 0, failed = 3\<rparr>
   \<and> batch_add_events iso_parse raising_sink [great_talk, festival, no_title]
       = Inr \<lparr>successful = 0, failed = 3\<rparr>
   \<and> add_event_via_mcp iso_parse refusing_sink festival = Inr False
   \<and> batch_add_events iso_parse refusing_sink [festival] = Inr \<lparr>successful = 0, failed = 1\<rparr>"
proof -
  let ?g = "\<lparr>g_summary = PStr ''Festival'', g_description = PStr [],
             g_start = Date (PStr ''2025-07-04''), g_end = Date (PStr ''2025-07-06''),
             g_location = None\<rparr>"
  let ?m = "add_event_try iso_parse raising_sink"
  have m: "?m festival = Inl OverflowError" "?m great_talk = Inl OverflowError"
      "?m no_title = Inr False"
    by (simp_all add: add_event_try_def festival_valid festival_format great_talk_valid
        great_talk_format no_title_invalid raising_sink_def)
  have s: "add_event_via_mcp iso_parse raising_sink great_talk = Inr False"
      "add_event_via_mcp iso_parse raising_sink no_title = Inr False"
    by (simp_all add: add_event_via_mcp_def m)
  have r: "raising_sink ?g = Inl OverflowError" "refusing_sink ?g = Inr False"
    by (simp_all add: raising_sink_def refusing_sink_def)
  note a = sink_failure_counted [of ?m festival "[great_talk]" "[no_title]" iso_parse ?g raising_sink]
  note b = sink_failure_counted [of ?m festival "[]" "[]" iso_parse ?g refusing_sink]
  show ?thesis
    using a b m s r festival_valid festival_format
    by (simp add: count_added_def count_failed_def)
qed

text \<open>
  C10. \<^verbatim>\<open>add_event_via_mcp\<close> returns a boolean for every event dict, every parser and every
  sink, and never raises: an exception of the validator (such as the \<^verbatim>\<open>TypeError\<close> for a
  \<^verbatim>\<open>start_date\<close> that is not a str), of the formatting or of the sink call becomes the
  return value false.
\<close>

theorem add_event_via_mcp_never_raises:
  "(\<exists>b. add_event_via_mcp parse sink ev = Inr b)
   \<and> (validate_event_data parse ev = Inl e \<longrightarrow> add_event_via_mcp parse sink ev = Inr False)
   \<and> (validate_event_data parse ev = Inr True \<and> format_event_for_gcal parse ev = Inl e \<longrightarrow>
        add_event_via_mcp parse sink ev = Inr False)
   \<and> (validate_event_data parse ev = Inr True \<and> format_event_for_gcal parse ev = Inr g
       \<and> sink g = Inl e \<longrightarrow> add_event_via_mcp parse sink ev = Inr False)"
proof (intro conjI impI)
  show "\<exists>b. add_event_via_mcp parse sink ev = Inr b"
    using add_event_via_mcp_cases [of parse sink ev] by blast
qed (auto simp: add_event_via_mcp_def add_event_try_def)

theorem add_event_via_mcp_never_raises_witness:
  "validate_event_data iso_parse int_date = Inl TypeError
   \<and> add_event_via_mcp iso_parse simulate_mcp_call int_date = Inr False"
  using add_event_via_mcp_never_raises [of iso_parse simulate_mcp_call int_date TypeError]
    int_date_raises
  by simp

text \<open>
  What \<^verbatim>\<open>run_agent\<close> returns, for every list of URLs: the extractor always returns a
  candidate sequence (the empty one when the model raises), and with that sequence the
  summary holds the number of URLs given, the number of candidates, the tally of
  \<^verbatim>\<open>process_events\<close> over the candidates, and the candidates in the extractor's order, each
  as the manager's call has left it. The calendar manager leaves an event as it was unless
  its description is a list.
\<close>

lemma event_after_add_same:
  assumes "\<And>xs. ev ''description'' \<noteq> Some (PList xs)"
  shows "event_after_add parse ev = ev"
proof -
  have "event_after_format parse ev = ev"
    using assms by (simp add: event_after_format_def split: option.splits pyval.splits)
  then show ?thesis
    by (simp add: event_after_add_def split: sum.splits)
qed

lemma run_agent_summary:
  "(\<exists>events. extract_events_with_gemini gemini_model (scrape_multiple_pages fetch urls)
              = Inr events)
   \<and> (extract_events_with_gemini gemini_model (scrape_multiple_pages fetch urls) = Inr events \<longrightarrow>
        process_events manager events =
          Inr \<lparr>successful = count_added manager events, failed = count_failed manager events\<rparr>
        \<and> run_agent fetch gemini_model manager after urls =
          Inr \<lparr>urls_processed = int (length urls),
               events_found = int (length events),
               events_added_successfully = count_added manager events,
               events_failed = count_failed manager events,
               extracted_events = map after events\<rparr>)"
proof (intro conjI impI)
  show "\<exists>events. extract_events_with_gemini gemini_model (scrape_multiple_pages fetch urls)
          = Inr events"
    by (auto simp: extract_events_with_gemini_def split: option.splits sum.splits)
next
  show "process_events manager events =
      Inr \<lparr>successful = count_added manager events, failed = count_failed manager events\<rparr>"
    by (rule process_events_counts)
next
  assume "extract_events_with_gemini gemini_model (scrape_multiple_pages fetch urls) = Inr events"
  then show "run_agent fetch gemini_model manager after urls =
      Inr \<lparr>urls_processed = int (length urls),
           events_found = int (length events),
           events_added_successfully = count_added manager events,
           events_failed = count_failed manager events,
           extracted_events = map after events\<rparr>"
    by (simp add: run_agent_def process_events_counts)
qed

lemma run_agent_demo:
  "run_agent long_page None (add_event_via_mcp iso_parse simulate_mcp_call)
     (event_after_add iso_parse)
     [''https://example.com/events'', ''https://another-site.com/calendar'']
   = Inr \<lparr>urls_processed = 2, events_found = 1, events_added_successfully = 1,
          events_failed = 0, extracted_events = [demo_event ''https://example.com/events'']\<rparr>"
proof -
  let ?urls = "[''https://example.com/events'', ''https://another-site.com/calendar'']"
  let ?ev = "demo_event ''https://example.com/events''"
  let ?m = "add_event_via_mcp iso_parse simulate_mcp_call"
  have sc: "scrape_multiple_pages long_page ?urls =
      [(''https://example.com/events'', replicate 101 CHR ''x''),
       (''https://another-site.com/calendar'', replicate 101 CHR ''x'')]"
    by (simp add: scrape_multiple_pages_def long_page_def)
  have ex: "extract_events_with_gemini None (scrape_multiple_pages long_page ?urls) = Inr [?ev]"
    by (simp add: sc extract_events_with_gemini_def generate_demo_events_def)
  have v: "validate_event_data iso_parse ?ev = Inr True"
    by (simp add: validate_event_data_def demo_event_def dict_eval fromisoformat_def parse_eval
        check_eval)
  have "\<exists>g. format_event_for_gcal iso_parse ?ev = Inr g"
    by (simp add: format_event_for_gcal_def demo_event_def dict_eval iadd_str_def Let_def)
  with v have "?m ?ev = Inr True"
    by (auto simp: add_event_via_mcp_def add_event_try_def simulate_mcp_call_def)
  then have c: "count_added ?m [?ev] = 1" "count_failed ?m [?ev] = 0"
    by (simp_all add: count_added_def count_failed_def)
  have "?ev ''description'' \<noteq> Some (PList xs)" for xs
    by (simp add: demo_event_def)
  then have "event_after_add iso_parse ?ev = ?ev"
    by (rule event_after_add_same)
  with c show ?thesis
    using run_agent_summary [of None long_page ?urls "[?ev]" ?m "event_after_add iso_parse"] ex
    by simp
qed

lemma list_description_valid: "validate_event_data iso_parse list_description = Inr True"
  by (simp add: validate_event_data_def list_description_def dict_eval fromisoformat_def
      parse_eval check_eval)

lemma list_description_format:
  "format_event_for_gcal iso_parse list_description =
     Inr \<lparr>g_summary = PStr ''T'',
          g_description =
            PList [PStr ''a'', PStr [CHR 0x0A], PStr [CHR 0x0A], PStr ''S'', PStr ''o'',
                   PStr ''u'', PStr ''r'', PStr ''c'', PStr ''e'', PStr '':'', PStr '' '',
                   PStr ''a'', PStr ''b''],
          g_start = Date (PStr ''2025-06-01''), g_end = Date (PStr ''2025-06-01''),
          g_location = None\<rparr>"
  by (simp add: format_event_for_gcal_def list_description_def dict_eval iadd_str_def py_str_def
      Let_def)

text \<open>
  C9. \<^verbatim>\<open>run_agent\<close> returns a summary with the number of URLs given, the number of
  candidates, the tally, and as \<^verbatim>\<open>extracted_events\<close> exactly the candidate sequence the
  extractor produced. The code breaks the last part for a candidate whose description
  is a list: the formatter extends that list in place, and the summary, which holds the
  same objects, shows the description with the characters of the source note appended.
\<close>

theorem run_agent_extends_list_description:
  "extract_events_with_gemini (Some answering_model)
     (scrape_multiple_pages long_page [''https://example.com/events'']) = Inr [list_description]
   \<and> list_description ''description'' = Some (PList [PStr ''a''])
   \<and> (\<exists>r. run_agent long_page (Some answering_model)
              (add_event_via_mcp iso_parse simulate_mcp_call) (event_after_add iso_parse)
              [''https://example.com/events''] = Inr r
          \<and> urls_processed r = 1 \<and> events_found r = 1
          \<and> events_added_successfully r = 1 \<and> events_failed r = 0
          \<and> map (\<lambda>ev. ev ''description'') (extracted_events r) =
              [Some (PList [PStr ''a'', PStr [CHR 0x0A], PStr [CHR 0x0A], PStr ''S'',
                            PStr ''o'', PStr ''u'', PStr ''r'', PStr ''c'', PStr ''e'',
                            PStr '':'', PStr '' '', PStr ''a'', PStr ''b''])])"
proof -
  let ?urls = "[''https://example.com/events'']"
  let ?m = "add_event_via_mcp iso_parse simulate_mcp_call"
  have ex: "extract_events_with_gemini (Some answering_model)
      (scrape_multiple_pages long_page ?urls) = Inr [list_description]"
    by (simp add: extract_events_with_gemini_def answering_model_def)
  have d: "list_description ''description'' = Some (PList [PStr ''a''])"
      "truthy (dict_get list_description ''url'')"
    by (simp_all add: list_description_def dict_get_def)
  have "?m list_description = Inr True"
    by (simp add: add_event_via_mcp_def add_event_try_def list_description_valid
        list_description_format simulate_mcp_call_def)
  then have c: "count_added ?m [list_description] = 1" "count_failed ?m [list_description] = 0"
    by (simp_all add: count_added_def count_failed_def)
  have a: "event_after_add iso_parse list_description ''description'' =
      Some (PList [PStr ''a'', PStr [CHR 0x0A], PStr [CHR 0x0A], PStr ''S'', PStr ''o'',
                   PStr ''u'', PStr ''r'', PStr ''c'', PStr ''e'', PStr '':'', PStr '' '',
                   PStr ''a'', PStr ''b''])"
    by (simp add: event_after_add_def event_after_format_def list_description_valid
        list_description_format d)
  have "run_agent long_page (Some answering_model) ?m (event_after_add iso_parse) ?urls =
      Inr \<lparr>urls_processed = 1, events_found = 1, events_added_successfully = 1,
           events_failed = 0,
           extracted_events = [event_after_add iso_parse list_description]\<rparr>"
    using ex c by (simp add: run_agent_def process_events_counts)
  with a ex d(1) show ?thesis
    by simp
qed

text \<open>
  C8. For every valid record whose description is absent or a str, the normalized
  description is the original description (the empty string when absent) followed by
  \<^verbatim>\<open>"\n\nSource: "\<close> and the url when the url is present and non-empty, and the original
  description unchanged when the url is absent or empty.
\<close>

theorem description_with_source:
  assumes "validate_event_data parse ev = Inr True"
    and "format_event_for_gcal parse ev = Inr g"
    and "ev ''description'' = None \<and> d = [] \<or> ev ''description'' = Some (PStr d)"
  shows "g_description g =
           (if truthy (dict_get ev ''url'')
            then PStr (d @ [CHR 0x0A, CHR 0x0A] @ ''Source: '' @ py_str (dict_get ev ''url''))
            else PStr d)"
proof -
  from assms(3) have "dict_get_default ev ''description'' (PStr []) = PStr d"
    by (auto simp: dict_get_default_def)
  with assms(2) show ?thesis
    by (auto simp: format_event_for_gcal_def Let_def iadd_str_def split: if_splits sum.splits)
qed

theorem description_with_source_witness:
  "validate_event_data iso_parse great_talk = Inr True
   \<and> (\<exists>g. format_event_for_gcal iso_parse great_talk = Inr g
          \<and> g_description g = PStr (''Great talk'' @ [CHR 0x0A, CHR 0x0A]
                                     @ ''Source: https://src.example/e''))
   \<and> (\<exists>g. format_event_for_gcal iso_parse festival = Inr g \<and> g_description g = PStr [])"
proof -
  note a = description_with_source [OF great_talk_valid great_talk_format, of "''Great talk''"]
  have b: "great_talk ''description'' = Some (PStr ''Great talk'')"
      "dict_get great_talk ''url'' = PStr ''https://src.example/e''"
    by (simp_all add: great_talk_def dict_get_def)
  have c: "festival ''description'' = None" "dict_get festival ''url'' = PNone"
    by (simp_all add: festival_def dict_get_def)
  note a' = description_with_source [OF festival_valid festival_format, of "[]"]
  show ?thesis
    using a a' b c great_talk_valid great_talk_format festival_format
    by (simp add: py_str_def)
qed

section \<open>Validation\<close>

lemma validate_True_iff:
  "validate_event_data parse ev = Inr True \<longleftrightarrow>
     (\<exists>t. ev ''title'' = Some t \<and> truthy t)
     \<and> (\<exists>s d. ev ''start_date'' = Some (PStr s) \<and> s \<noteq> [] \<and> fromisoformat parse (PStr s) = Inr d)"
proof (cases "ev ''start_date''")
  case None
  then show ?thesis
    by (simp add: validate_event_data_def required_fields_def missing_def)
next
  case (Some v)
  show ?thesis
  proof (cases v)
    case (PStr s)
    with Some show ?thesis
      by (auto simp: validate_event_data_def required_fields_def missing_def dict_item_def
          split: option.splits sum.splits)
  qed (use Some in \<open>auto simp: validate_event_data_def required_fields_def missing_def
      dict_item_def fromisoformat_def split: option.splits\<close>)
qed

lemma validate_str_date:
  "ev ''start_date'' = Some (PStr s) \<Longrightarrow> \<exists>b. validate_event_data parse ev = Inr b"
  by (auto simp: validate_event_data_def dict_item_def fromisoformat_def
      split: option.splits sum.splits)

lemma calendar_date_accepted:
  assumes "is_calendar_date s"
  shows "\<exists>d. fromisoformat iso_parse (PStr s) = Inr d"
proof -
  from assms obtain y m d where p: "parse_isoformat_date s = Some (y, m, d)"
    and c: "check_date_fields y m d"
    by (auto simp: is_calendar_date_def split: option.splits)
  from p have "length s = 10"
    by (simp add: parse_isoformat_date_def split: if_splits)
  with p c show ?thesis
    by (simp add: fromisoformat_def iso_parse_def check_fields_def check_time_fields_def
        check_tzinfo_def)
qed

lemma date_with_time_valid: "validate_event_data iso_parse date_with_time = Inr True"
  by (simp add: validate_event_data_def date_with_time_def dict_eval fromisoformat_def
      parse_eval check_eval)

lemma not_a_date_rejected: "fromisoformat iso_parse (PStr ''not-a-date'') = Inl ValueError"
  by (simp add: fromisoformat_def parse_eval)

lemma not_a_date_invalid: "validate_event_data iso_parse not_a_date = Inr False"
  by (simp add: validate_event_data_def not_a_date_def dict_eval not_a_date_rejected)

text \<open>
  C4, as the code has it. \<^verbatim>\<open>validate_event_data\<close> returns true exactly when the title is
  present and non-empty and \<^verbatim>\<open>start_date\<close> is a non-empty str that
  \<^verbatim>\<open>datetime.fromisoformat\<close> accepts, and false for every str \<^verbatim>\<open>start_date\<close> that
  \<^verbatim>\<open>fromisoformat\<close> rejects. Every \<^verbatim>\<open>YYYY-MM-DD\<close> calendar date is accepted by the parser of
  the documented format, which accepts date-times too.
\<close>

theorem validate_accepts_what_fromisoformat_accepts:
  "(validate_event_data parse ev = Inr True \<longleftrightarrow>
      (\<exists>t. ev ''title'' = Some t \<and> truthy t)
      \<and> (\<exists>s d. ev ''start_date'' = Some (PStr s) \<and> s \<noteq> []
                \<and> fromisoformat parse (PStr s) = Inr d))
   \<and> (ev ''start_date'' = Some (PStr s) \<and> fromisoformat parse (PStr s) = Inl ValueError \<longrightarrow>
        validate_event_data parse ev = Inr False)
   \<and> (ev ''title'' = Some t \<and> truthy t \<and> ev ''start_date'' = Some (PStr s)
       \<and> is_calendar_date s \<longrightarrow> validate_event_data iso_parse ev = Inr True)"
proof (intro conjI impI)
  show "validate_event_data parse ev = Inr True \<longleftrightarrow>
      (\<exists>t. ev ''title'' = Some t \<and> truthy t)
      \<and> (\<exists>s d. ev ''start_date'' = Some (PStr s) \<and> s \<noteq> []
                \<and> fromisoformat parse (PStr s) = Inr d)"
    by (rule validate_True_iff)
next
  assume a: "ev ''start_date'' = Some (PStr s) \<and> fromisoformat parse (PStr s) = Inl ValueError"
  then obtain b where b: "validate_event_data parse ev = Inr b"
    using validate_str_date by blast
  from a have "validate_event_data parse ev \<noteq> Inr True"
    by (auto simp: validate_True_iff)
  with b show "validate_event_data parse ev = Inr False"
    by (cases b) auto
next
  assume a: "ev ''title'' = Some t \<and> truthy t \<and> ev ''start_date'' = Some (PStr s)
       \<and> is_calendar_date s"
  then have "s \<noteq> []"
    by (auto simp: is_calendar_date_def parse_isoformat_date_def)
  with a calendar_date_accepted [of s] show "validate_event_data iso_parse ev = Inr True"
    by (auto simp: validate_True_iff)
qed

theorem validate_accepts_what_fromisoformat_accepts_witness:
  "validate_event_data iso_parse festival = Inr True
   \<and> is_calendar_date ''2025-07-04''
   \<and> fromisoformat iso_parse (PStr ''not-a-date'') = Inl ValueError
   \<and> validate_event_data iso_parse not_a_date = Inr False"
proof -
  have c: "is_calendar_date ''2025-07-04''"
    by (simp add: is_calendar_date_def parse_eval check_eval)
  have f: "festival ''title'' = Some (PStr ''Festival'')"
      "festival ''start_date'' = Some (PStr ''2025-07-04'')"
    by (simp_all add: festival_def)
  have n: "not_a_date ''start_date'' = Some (PStr ''not-a-date'')"
    by (simp add: not_a_date_def)
  show ?thesis
    using validate_accepts_what_fromisoformat_accepts
            [of iso_parse festival "''2025-07-04''" "PStr ''Festival''"]
          validate_accepts_what_fromisoformat_accepts
            [of iso_parse not_a_date "''not-a-date''"]
          c f n not_a_date_rejected
    by simp
qed

text \<open>
  Against C4 as stated: a \<^verbatim>\<open>start_date\<close> that is a date-time, not a \<^verbatim>\<open>YYYY-MM-DD\<close> date,
  passes validation.
\<close>

theorem validate_accepts_datetime_string:
  "validate_event_data iso_parse date_with_time = Inr True
   \<and> date_with_time ''start_date'' = Some (PStr ''2025-06-01T14:00:00'')
   \<and> \<not> is_calendar_date ''2025-06-01T14:00:00''"
proof -
  have "date_with_time ''start_date'' = Some (PStr ''2025-06-01T14:00:00'')"
    by (simp add: date_with_time_def)
  moreover have "\<not> is_calendar_date ''2025-06-01T14:00:00''"
    by (simp add: is_calendar_date_def parse_isoformat_date_def)
  ultimately show ?thesis
    using date_with_time_valid by simp
qed

text \<open>
  What the validator catches: \<^verbatim>\<open>ValueError\<close> only. For a \<^verbatim>\<open>start_date\<close> that is a str, or
  missing, it returns a boolean: the \<^verbatim>\<open>ValueError\<close> of a rejected str becomes false. The one
  exception it lets through is the \<^verbatim>\<open>TypeError\<close> that \<^verbatim>\<open>fromisoformat\<close> raises for a
  non-empty \<^verbatim>\<open>start_date\<close> that is not a str, in a record whose title is present.
\<close>

lemma validate_catches_value_error_only:
  "(ev ''start_date'' = Some (PStr s) \<longrightarrow> (\<exists>b. validate_event_data parse ev = Inr b))
   \<and> (ev ''start_date'' = None \<longrightarrow> validate_event_data parse ev = Inr False)
   \<and> (validate_event_data parse ev = Inl e \<longrightarrow>
        e = TypeError
        \<and> (\<exists>t. ev ''title'' = Some t \<and> truthy t)
        \<and> (\<exists>v. ev ''start_date'' = Some v \<and> truthy v
                \<and> fromisoformat parse v = Inl TypeError))"
proof (intro conjI impI)
  assume "ev ''start_date'' = Some (PStr s)"
  then show "\<exists>b. validate_event_data parse ev = Inr b"
    by (rule validate_str_date)
next
  assume "ev ''start_date'' = None"
  then show "validate_event_data parse ev = Inr False"
    by (simp add: validate_event_data_def required_fields_def missing_def)
next
  assume a: "validate_event_data parse ev = Inl e"
  then show "e = TypeError"
    by (auto simp: validate_event_data_def required_fields_def missing_def dict_item_def
        fromisoformat_def split: if_splits option.splits sum.splits pyval.splits)
  from a show "\<exists>t. ev ''title'' = Some t \<and> truthy t"
    by (auto simp: validate_event_data_def required_fields_def missing_def
        split: if_splits option.splits)
  from a show "\<exists>v. ev ''start_date'' = Some v \<and> truthy v \<and> fromisoformat parse v = Inl TypeError"
    by (auto simp: validate_event_data_def required_fields_def missing_def dict_item_def
        fromisoformat_def split: if_splits option.splits sum.splits pyval.splits)
qed

lemma validate_catches_value_error_only_example:
  "validate_event_data iso_parse not_a_date = Inr False
   \<and> validate_event_data iso_parse no_title = Inr False
   \<and> validate_event_data iso_parse int_date = Inl TypeError
   \<and> fromisoformat iso_parse (PInt 20250601) = Inl TypeError"
proof -
  have n: "not_a_date ''start_date'' = Some (PStr ''not-a-date'')"
    by (simp add: not_a_date_def)
  have "fromisoformat iso_parse (PInt 20250601) = Inl TypeError"
    by (simp add: fromisoformat_def)
  then show ?thesis
    using validate_catches_value_error_only [of not_a_date "''not-a-date''" iso_parse] n
      not_a_date_invalid no_title_invalid int_date_raises
    by simp
qed

text \<open>
  C6. Every exception that arises while \<^verbatim>\<open>start_date\<close> is parsed is to be caught inside the
  validator and turned into false, whatever the value of \<^verbatim>\<open>start_date\<close>; the docstring
  promises a boolean. The code breaks this for a \<^verbatim>\<open>start_date\<close> that is an integer:
  \<^verbatim>\<open>fromisoformat\<close> raises \<^verbatim>\<open>TypeError\<close>, the \<^verbatim>\<open>except\<close> clause names \<^verbatim>\<open>ValueError\<close> only, and
  the exception leaves the validator.
\<close>

theorem validate_propagates_type_error:
  "int_date ''start_date'' = Some (PInt 20250601)
   \<and> validate_event_data iso_parse int_date = Inl TypeError"
  by (simp add: int_date_raises) (simp add: int_date_def)

section \<open>Normalization\<close>

lemma validate_str_start_date:
  "validate_event_data parse ev = Inr True \<Longrightarrow> \<exists>s. ev ''start_date'' = Some (PStr s)"
  by (auto simp: validate_True_iff)

lemma format_untimed_start:
  assumes "\<not> truthy (dict_get ev ''start_time'')"
    and "format_event_for_gcal parse ev = Inr g"
  shows "g_start g = Date (dict_get ev ''start_date'')"
    and "\<not> truthy (dict_get ev ''end_time'') \<Longrightarrow>
         g_end g = Date (dict_get_default ev ''end_date'' (dict_get ev ''start_date''))"
  using assms
  by (auto simp: format_event_for_gcal_def Let_def split: if_splits sum.splits)

lemma format_untimed_returns:
  assumes "\<not> truthy (dict_get ev ''start_time'')"
    and "ev ''description'' = None \<or> (\<exists>d. ev ''description'' = Some (PStr d))"
  shows "\<exists>g. format_event_for_gcal parse ev = Inr g"
proof -
  from assms(2) obtain d where "dict_get_default ev ''description'' (PStr []) = PStr d"
    by (auto simp: dict_get_default_def)
  with assms(1) show ?thesis
    by (simp add: format_event_for_gcal_def Let_def iadd_str_def)
qed

lemma format_timed:
  assumes "truthy (dict_get ev ''start_time'')"
    and "\<not> truthy (dict_get ev ''end_time'')"
  shows "format_event_for_gcal parse ev =
     (case fromisoformat parse (PStr (start_string ev)) of
        Inl e \<Rightarrow> Inl e
      | Inr start_dt \<Rightarrow>
          (case datetime_add start_dt (timedelta_hours 1) of
             Inl e \<Rightarrow> Inl e
           | Inr end_dt \<Rightarrow>
               (case (if truthy (dict_get ev ''url'')
                      then iadd_str (dict_get_default ev ''description'' (PStr []))
                             ([CHR 0x0A, CHR 0x0A] @ ''Source: '' @ py_str (dict_get ev ''url''))
                      else Inr (dict_get_default ev ''description'' (PStr []))) of
                  Inl e \<Rightarrow> Inl e
                | Inr description' \<Rightarrow>
                    Inr \<lparr>g_summary = dict_get_default ev ''title'' (PStr ''Untitled Event''),
                         g_description = description',
                         g_start = DateTime (start_string ev) ''UTC'',
                         g_end = DateTime (isoformat end_dt) ''UTC'',
                         g_location = (if truthy (dict_get ev ''location'')
                                       then ev ''location'' else None)\<rparr>)))"
  using assms
  by (simp add: format_event_for_gcal_def start_string_def Let_def split: sum.splits)

lemma tally_around:
  assumes "add ev \<noteq> Inr True"
  shows "count_added add (pre @ ev # post) = count_added add pre + count_added add post"
    and "count_failed add (pre @ ev # post) = count_failed add pre + 1 + count_failed add post"
  using assms by (simp_all add: count_added_def count_failed_def)

lemma standup_valid: "validate_event_data iso_parse standup = Inr True"
  by (simp add: validate_event_data_def standup_def dict_eval fromisoformat_def parse_eval
      check_eval)

lemma standup_format:
  "format_event_for_gcal iso_parse standup =
     Inr \<lparr>g_summary = PStr ''Standup'', g_description = PStr [],
          g_start = Date (PStr ''2025-06-01''),
          g_end = DateTime ''2025-06-01T15:00:00'' ''UTC'', g_location = None\<rparr>"
  by (simp add: format_event_for_gcal_def standup_def dict_eval py_str_def Let_def)

lemma tech_talk_valid: "validate_event_data iso_parse tech_talk = Inr True"
  by (simp add: validate_event_data_def tech_talk_def dict_eval fromisoformat_def parse_eval
      check_eval)

lemma tech_talk_start: "start_string tech_talk = ''2025-06-01T14:00:00''"
  by (simp add: start_string_def tech_talk_def dict_get_def py_str_def)

lemma tech_talk_start_dt:
  "fromisoformat iso_parse (PStr ''2025-06-01T14:00:00'') =
     Inr \<lparr>dt_year = 2025, dt_month = 6, dt_day = 1, dt_hour = 14, dt_minute = 0,
          dt_second = 0, dt_microsecond = 0, dt_tzinfo = None\<rparr>"
  by (simp add: fromisoformat_def parse_eval check_eval)

lemma tech_talk_end_dt:
  "datetime_add \<lparr>dt_year = 2025, dt_month = 6, dt_day = 1, dt_hour = 14, dt_minute = 0,
                  dt_second = 0, dt_microsecond = 0, dt_tzinfo = None\<rparr> (timedelta_hours 1) =
     Inr \<lparr>dt_year = 2025, dt_month = 6, dt_day = 1, dt_hour = 15, dt_minute = 0,
          dt_second = 0, dt_microsecond = 0, dt_tzinfo = None\<rparr>"
  by (simp add: add_eval)

lemma tech_talk_end:
  "isoformat \<lparr>dt_year = 2025, dt_month = 6, dt_day = 1, dt_hour = 15, dt_minute = 0,
               dt_second = 0, dt_microsecond = 0, dt_tzinfo = None\<rparr> = ''2025-06-01T15:00:00''"
  by (simp add: render_eval)

lemma tech_talk_format:
  "format_event_for_gcal iso_parse tech_talk =
     Inr \<lparr>g_summary = PStr ''Tech Talk'', g_description = PStr [],
          g_start = DateTime ''2025-06-01T14:00:00'' ''UTC'',
          g_end = DateTime ''2025-06-01T15:00:00'' ''UTC'', g_location = None\<rparr>"
proof -
  have t: "truthy (dict_get tech_talk ''start_time'')" "\<not> truthy (dict_get tech_talk ''end_time'')"
    by (simp_all add: tech_talk_def dict_eval)
  have u: "\<not> truthy (dict_get tech_talk ''url'')" "\<not> truthy (dict_get tech_talk ''location'')"
      "dict_get_default tech_talk ''description'' (PStr []) = PStr []"
      "dict_get_default tech_talk ''title'' (PStr ''Untitled Event'') = PStr ''Tech Talk''"
    by (simp_all add: tech_talk_def dict_eval)
  show ?thesis
    unfolding format_timed [OF t] tech_talk_start tech_talk_start_dt
    by (simp only: sum.case tech_talk_end_dt tech_talk_end u if_False)
qed

lemma bad_start_time_valid: "validate_event_data iso_parse bad_start_time = Inr True"
  by (simp add: validate_event_data_def bad_start_time_def dict_eval fromisoformat_def parse_eval
      check_eval)

lemma bad_start_time_times:
  "truthy (dict_get bad_start_time ''start_time'')" "\<not> truthy (dict_get bad_start_time ''end_time'')"
  by (simp_all add: bad_start_time_def dict_eval)

lemma bad_start_time_rejected:
  "fromisoformat iso_parse (PStr (start_string bad_start_time)) = Inl ValueError"
proof -
  have "start_string bad_start_time = ''2025-06-01T25:00:00''"
    by (simp add: start_string_def bad_start_time_def dict_get_def py_str_def)
  then show ?thesis
    by (simp add: fromisoformat_def parse_eval check_eval)
qed

lemma bad_times_valid: "validate_event_data iso_parse bad_times = Inr True"
  by (simp add: validate_event_data_def bad_times_def dict_eval fromisoformat_def parse_eval
      check_eval)

lemma bad_times_format:
  "format_event_for_gcal iso_parse bad_times =
     Inr \<lparr>g_summary = PStr ''Tech Talk'', g_description = PStr [],
          g_start = DateTime ''2025-06-01Tabc:00'' ''UTC'',
          g_end = DateTime ''2025-06-01Txyz:00'' ''UTC'', g_location = None\<rparr>"
  by (simp add: format_event_for_gcal_def bad_times_def dict_eval py_str_def Let_def)

text \<open>
  The schedule of a record that passed validation and has no \<^verbatim>\<open>start_time\<close>: the start of
  the produced event is the date-only \<^verbatim>\<open>start_date\<close>, and when \<^verbatim>\<open>end_time\<close> is absent too,
  its end is date-only as well: \<^verbatim>\<open>end_date\<close>, or \<^verbatim>\<open>start_date\<close> when the record has no
  \<^verbatim>\<open>end_date\<close>. The event is produced whenever the description is absent or a str.
\<close>

lemma all_day_event_without_times:
  assumes "validate_event_data parse ev = Inr True"
    and "\<not> truthy (dict_get ev ''start_time'')"
  shows "\<exists>s. ev ''start_date'' = Some (PStr s)
           \<and> (\<forall>g. format_event_for_gcal parse ev = Inr g \<longrightarrow>
                 g_start g = Date (PStr s)
                 \<and> (\<not> truthy (dict_get ev ''end_time'') \<longrightarrow>
                      g_end g = Date (dict_get_default ev ''end_date'' (PStr s))))
           \<and> (ev ''description'' = None \<or> (\<exists>d. ev ''description'' = Some (PStr d)) \<longrightarrow>
                (\<exists>g. format_event_for_gcal parse ev = Inr g))"
proof -
  from assms(1) obtain s where s: "ev ''start_date'' = Some (PStr s)"
    using validate_str_start_date by blast
  then have sd: "dict_get ev ''start_date'' = PStr s"
    by (simp add: dict_get_def)
  have "g_start g = Date (PStr s)
        \<and> (\<not> truthy (dict_get ev ''end_time'') \<longrightarrow>
             g_end g = Date (dict_get_default ev ''end_date'' (PStr s)))"
    if "format_event_for_gcal parse ev = Inr g" for g
    using format_untimed_start [OF assms(2) that] sd by simp
  moreover have "\<exists>g. format_event_for_gcal parse ev = Inr g"
    if "ev ''description'' = None \<or> (\<exists>d. ev ''description'' = Some (PStr d))"
    using format_untimed_returns [OF assms(2) that] .
  ultimately show ?thesis
    using s by blast
qed

lemma all_day_event_without_times_example:
  "validate_event_data iso_parse festival = Inr True
   \<and> dict_get festival ''start_time'' = PNone
   \<and> dict_get festival ''end_time'' = PNone
   \<and> festival ''start_date'' = Some (PStr ''2025-07-04'')
   \<and> dict_get_default festival ''end_date'' (PStr ''2025-07-04'') = PStr ''2025-07-06''
   \<and> (\<exists>g. format_event_for_gcal iso_parse festival = Inr g
          \<and> g_start g = Date (PStr ''2025-07-04'') \<and> g_end g = Date (PStr ''2025-07-06''))"
proof -
  have f: "dict_get festival ''start_time'' = PNone" "dict_get festival ''end_time'' = PNone"
      "festival ''start_date'' = Some (PStr ''2025-07-04'')"
      "dict_get_default festival ''end_date'' (PStr ''2025-07-04'') = PStr ''2025-07-06''"
      "festival ''description'' = None"
    by (simp_all add: festival_def dict_eval)
  then have "\<not> truthy (dict_get festival ''start_time'')"
    by simp
  from all_day_event_without_times [OF festival_valid this] f festival_valid
  show ?thesis
    by auto
qed

text \<open>
  C1. A record that passed validation and has no \<^verbatim>\<open>start_time\<close> is to be normalized to an
  all-day schedule from \<^verbatim>\<open>start_date\<close> to \<^verbatim>\<open>end_date\<close>, whether or not \<^verbatim>\<open>end_time\<close> is
  present, with date-only start and end and no timed instant. The code breaks this when
  \<^verbatim>\<open>end_time\<close> is present: the start is built in the branch commented \<^verbatim>\<open># All-day event\<close>,
  but the end is built from \<^verbatim>\<open>end_time\<close>, so the event has a date-only start beside a timed
  end.
\<close>

theorem end_time_alone_gives_timed_end:
  "validate_event_data iso_parse standup = Inr True
   \<and> standup ''start_time'' = None
   \<and> format_event_for_gcal iso_parse standup =
       Inr \<lparr>g_summary = PStr ''Standup'', g_description = PStr [],
            g_start = Date (PStr ''2025-06-01''),
            g_end = DateTime ''2025-06-01T15:00:00'' ''UTC'', g_location = None\<rparr>"
proof -
  have "standup ''start_time'' = None"
    by (simp add: standup_def)
  then show ?thesis
    using standup_valid standup_format by simp
qed

text \<open>
  C2, as the code has it. For every valid record with \<^verbatim>\<open>start_time\<close> present and \<^verbatim>\<open>end_time\<close>
  absent: when an event is produced, \<^verbatim>\<open>fromisoformat\<close> has read the text
  \<^verbatim>\<open>f"{start_date}T{start_time}:00"\<close>, the start of the event is that text, its end is the
  ISO text of the datetime exactly one hour (3600000000 microseconds) after the one read,
  with the same UTC offset, and both carry the time zone \<^verbatim>\<open>UTC\<close>. When \<^verbatim>\<open>fromisoformat\<close>
  rejects the text, or the hour added leaves the calendar, no event is produced: the
  exception leaves the formatter.
\<close>

theorem timed_event_ends_one_hour_later:
  assumes "validate_event_data parse ev = Inr True"
    and "truthy (dict_get ev ''start_time'')"
    and "\<not> truthy (dict_get ev ''end_time'')"
  shows "(\<forall>g. format_event_for_gcal parse ev = Inr g \<longrightarrow>
            (\<exists>start_dt end_dt.
               fromisoformat parse (PStr (start_string ev)) = Inr start_dt
               \<and> datetime_add start_dt (timedelta_hours 1) = Inr end_dt
               \<and> instant end_dt = instant start_dt + 3600000000
               \<and> dt_tzinfo end_dt = dt_tzinfo start_dt
               \<and> g_start g = DateTime (start_string ev) ''UTC''
               \<and> g_end g = DateTime (isoformat end_dt) ''UTC''))
         \<and> (\<forall>e. fromisoformat parse (PStr (start_string ev)) = Inl e \<longrightarrow>
               format_event_for_gcal parse ev = Inl e)
         \<and> (\<forall>start_dt e. fromisoformat parse (PStr (start_string ev)) = Inr start_dt
               \<and> datetime_add start_dt (timedelta_hours 1) = Inl e \<longrightarrow>
               format_event_for_gcal parse ev = Inl e)"
proof (intro conjI allI impI)
  fix g
  assume g: "format_event_for_gcal parse ev = Inr g"
  from g obtain start_dt where s: "fromisoformat parse (PStr (start_string ev)) = Inr start_dt"
    unfolding format_timed [OF assms(2,3)] by (auto split: sum.splits)
  from g s obtain end_dt where e: "datetime_add start_dt (timedelta_hours 1) = Inr end_dt"
    unfolding format_timed [OF assms(2,3)] by (auto split: sum.splits)
  from g s e have "g_start g = DateTime (start_string ev) ''UTC''"
      "g_end g = DateTime (isoformat end_dt) ''UTC''"
    unfolding format_timed [OF assms(2,3)] by (auto split: sum.splits if_splits)
  moreover from datetime_add_instant [OF e]
  have "instant end_dt = instant start_dt + 3600000000" "dt_tzinfo end_dt = dt_tzinfo start_dt"
    by (simp_all add: timedelta_hours_def)
  ultimately show "\<exists>start_dt end_dt.
      fromisoformat parse (PStr (start_string ev)) = Inr start_dt
      \<and> datetime_add start_dt (timedelta_hours 1) = Inr end_dt
      \<and> instant end_dt = instant start_dt + 3600000000
      \<and> dt_tzinfo end_dt = dt_tzinfo start_dt
      \<and> g_start g = DateTime (start_string ev) ''UTC''
      \<and> g_end g = DateTime (isoformat end_dt) ''UTC''"
    using s e by blast
next
  fix e
  assume "fromisoformat parse (PStr (start_string ev)) = Inl e"
  then show "format_event_for_gcal parse ev = Inl e"
    unfolding format_timed [OF assms(2,3)] by simp
next
  fix start_dt e
  assume "fromisoformat parse (PStr (start_string ev)) = Inr start_dt
      \<and> datetime_add start_dt (timedelta_hours 1) = Inl e"
  then show "format_event_for_gcal parse ev = Inl e"
    unfolding format_timed [OF assms(2,3)] by simp
qed

theorem timed_event_ends_one_hour_later_witness:
  "validate_event_data iso_parse tech_talk = Inr True
   \<and> truthy (dict_get tech_talk ''start_time'')
   \<and> dict_get tech_talk ''end_time'' = PNone
   \<and> format_event_for_gcal iso_parse tech_talk =
       Inr \<lparr>g_summary = PStr ''Tech Talk'', g_description = PStr [],
            g_start = DateTime ''2025-06-01T14:00:00'' ''UTC'',
            g_end = DateTime ''2025-06-01T15:00:00'' ''UTC'', g_location = None\<rparr>
   \<and> (\<exists>start_dt end_dt.
        fromisoformat iso_parse (PStr ''2025-06-01T14:00:00'') = Inr start_dt
        \<and> isoformat end_dt = ''2025-06-01T15:00:00''
        \<and> instant end_dt = instant start_dt + 3600000000)"
proof -
  have t: "truthy (dict_get tech_talk ''start_time'')" "dict_get tech_talk ''end_time'' = PNone"
    by (simp_all add: tech_talk_def dict_eval)
  then have n: "\<not> truthy (dict_get tech_talk ''end_time'')"
    by simp
  from timed_event_ends_one_hour_later [OF tech_talk_valid t(1) n] tech_talk_format
  have "\<exists>start_dt end_dt.
      fromisoformat iso_parse (PStr (start_string tech_talk)) = Inr start_dt
      \<and> instant end_dt = instant start_dt + 3600000000
      \<and> DateTime ''2025-06-01T15:00:00'' ''UTC'' = DateTime (isoformat end_dt) ''UTC''"
    by fastforce
  then have "\<exists>start_dt end_dt.
      fromisoformat iso_parse (PStr ''2025-06-01T14:00:00'') = Inr start_dt
      \<and> isoformat end_dt = ''2025-06-01T15:00:00''
      \<and> instant end_dt = instant start_dt + 3600000000"
    unfolding tech_talk_start by auto
  then show ?thesis
    using tech_talk_valid t tech_talk_format by simp
qed

text \<open>
  Against C2 as stated: a valid record with the \<^verbatim>\<open>start_time\<close> 25:00 and no \<^verbatim>\<open>end_time\<close>
  yields no timed event; the formatter raises \<^verbatim>\<open>ValueError\<close>.
\<close>

theorem bad_start_time_raises:
  "validate_event_data iso_parse bad_start_time = Inr True
   \<and> truthy (dict_get bad_start_time ''start_time'')
   \<and> bad_start_time ''end_time'' = None
   \<and> format_event_for_gcal iso_parse bad_start_time = Inl ValueError"
proof -
  have "bad_start_time ''end_time'' = None"
    by (simp add: bad_start_time_def)
  moreover have "format_event_for_gcal iso_parse bad_start_time = Inl ValueError"
    unfolding format_timed [OF bad_start_time_times] bad_start_time_rejected by simp
  ultimately show ?thesis
    using bad_start_time_valid bad_start_time_times by simp
qed

text \<open>
  C5, as the code has it. The formatter parses a time only to compute the default end:
  for every valid record with \<^verbatim>\<open>start_time\<close> present and \<^verbatim>\<open>end_time\<close> absent whose text
  \<^verbatim>\<open>f"{start_date}T{start_time}:00"\<close> is rejected by \<^verbatim>\<open>fromisoformat\<close>, normalization raises
  \<^verbatim>\<open>ValueError\<close>, \<^verbatim>\<open>add_event_via_mcp\<close> returns false, and in a batch the record counts as one
  failure while the records before and after it are counted as without it.
\<close>

theorem rejected_start_fails_locally:
  assumes "validate_event_data parse ev = Inr True"
    and "truthy (dict_get ev ''start_time'')"
    and "\<not> truthy (dict_get ev ''end_time'')"
    and "fromisoformat parse (PStr (start_string ev)) = Inl ValueError"
  shows "format_event_for_gcal parse ev = Inl ValueError
         \<and> add_event_via_mcp parse sink ev = Inr False
         \<and> batch_add_events parse sink (pre @ ev # post) =
             Inr \<lparr>successful = count_added (add_event_via_mcp parse sink) pre
                               + count_added (add_event_via_mcp parse sink) post,
                  failed = count_failed (add_event_via_mcp parse sink) pre + 1
                           + count_failed (add_event_via_mcp parse sink) post\<rparr>
         \<and> process_events (add_event_via_mcp parse sink) (pre @ ev # post) =
             Inr \<lparr>successful = count_added (add_event_via_mcp parse sink) pre
                               + count_added (add_event_via_mcp parse sink) post,
                  failed = count_failed (add_event_via_mcp parse sink) pre + 1
                           + count_failed (add_event_via_mcp parse sink) post\<rparr>"
proof -
  have f: "format_event_for_gcal parse ev = Inl ValueError"
    unfolding format_timed [OF assms(2,3)] assms(4) by simp
  with assms(1) have a: "add_event_via_mcp parse sink ev = Inr False"
    by (simp add: add_event_via_mcp_def add_event_try_def)
  then have "add_event_via_mcp parse sink ev \<noteq> Inr True"
    by simp
  from tally_around [of "add_event_via_mcp parse sink" ev pre post, OF this] f a show ?thesis
    by (simp add: batch_add_events_counts process_events_counts)
qed

theorem rejected_start_fails_locally_witness:
  "validate_event_data iso_parse bad_start_time = Inr True
   \<and> fromisoformat iso_parse (PStr (start_string bad_start_time)) = Inl ValueError
   \<and> format_event_for_gcal iso_parse bad_start_time = Inl ValueError
   \<and> add_event_via_mcp iso_parse simulate_mcp_call bad_start_time = Inr False
   \<and> batch_add_events iso_parse simulate_mcp_call [festival, bad_start_time, great_talk]
       = Inr \<lparr>successful = 2, failed = 1\<rparr>"
proof -
  let ?add = "add_event_via_mcp iso_parse simulate_mcp_call"
  have "?add festival = Inr True" "?add great_talk = Inr True"
    by (simp_all add: add_event_via_mcp_def add_event_try_def festival_valid festival_format
        great_talk_valid great_talk_format simulate_mcp_call_def)
  then have c: "count_added ?add [festival] = 1" "count_failed ?add [festival] = 0"
      "count_added ?add [great_talk] = 1" "count_failed ?add [great_talk] = 0"
    by (simp_all add: count_added_def count_failed_def)
  from rejected_start_fails_locally
         [OF bad_start_time_valid bad_start_time_times bad_start_time_rejected,
          of simulate_mcp_call "[festival]" "[great_talk]"]
  show ?thesis
    using c bad_start_time_valid bad_start_time_rejected by simp
qed

text \<open>
  Against C5 as stated: a valid record whose \<^verbatim>\<open>start_time\<close> and \<^verbatim>\<open>end_time\<close> are no times at
  all is normalized and added; the two texts are copied into the event.
\<close>

theorem malformed_times_are_not_detected:
  "validate_event_data iso_parse bad_times = Inr True
   \<and> bad_times ''start_time'' = Some (PStr ''abc'')
   \<and> bad_times ''end_time'' = Some (PStr ''xyz'')
   \<and> parse_hh_mm_ss_ff ''abc'' = None
   \<and> parse_hh_mm_ss_ff ''xyz'' = None
   \<and> format_event_for_gcal iso_parse bad_times =
       Inr \<lparr>g_summary = PStr ''Tech Talk'', g_description = PStr [],
            g_start = DateTime ''2025-06-01Tabc:00'' ''UTC'',
            g_end = DateTime ''2025-06-01Txyz:00'' ''UTC'', g_location = None\<rparr>
   \<and> add_event_via_mcp iso_parse simulate_mcp_call bad_times = Inr True"
proof -
  have "bad_times ''start_time'' = Some (PStr ''abc'')" "bad_times ''end_time'' = Some (PStr ''xyz'')"
    by (simp_all add: bad_times_def)
  moreover have "parse_hh_mm_ss_ff ''abc'' = None" "parse_hh_mm_ss_ff ''xyz'' = None"
    by (simp_all add: parse_hh_mm_ss_ff_def is_digit_def)
  moreover have "add_event_via_mcp iso_parse simulate_mcp_call bad_times = Inr True"
    by (simp add: add_event_via_mcp_def add_event_try_def bad_times_valid bad_times_format
        simulate_mcp_call_def)
  ultimately show ?thesis
    using bad_times_valid bad_times_format by simp
qed

end
